theory Spec2Isabelle
  imports Main "HOL-Library.Multiset"
begin

section \<open>Data model (package models)\<close>

text \<open>
  Go strings are byte sequences, modelled as \<open>string\<close> (a list of 8-bit characters).
  Go's \<open>int\<close> is modelled as \<open>int\<close>: the only arithmetic in the code under study is
  \<open>count++\<close>, executed at most once per element of a slice, and a slice length always
  fits an \<open>int\<close>, so no counter can wrap.  \<open>time.Time\<close> is modelled as an instant on
  the integer time line (\<open>Before\<close> is \<open><\<close>).
\<close>

record Question =
  ID :: string
  SectionID :: string
  Text :: string
  Blurb :: string
  SupportingLink :: string
  IsEssential :: bool
  Order :: int

record Answer =
  QuestionID :: string
  Response :: string

record SectionScore =
  SectionID :: string
  YesCount :: int
  NoCount :: int
  NaCount :: int

text \<open>
  A Go map is a finite partial function.  A nil map and an empty map behave alike under
  lookup and \<open>range\<close>, the only operations applied to maps that are read here, so both are
  \<open>Map.empty\<close>.
\<close>

record PRRSubmission =
  ID :: string
  ServiceID :: string
  UserID :: string
  Timestamp :: int
  Answers :: "Answer list"
  SectionScores :: "string \<rightharpoonup> SectionScore"

record SectionScoreComparison =
  OldScores :: SectionScore
  NewScores :: SectionScore

record AnswerChangeDetail =
  QuestionID :: string
  QuestionText :: string
  OldAnswer :: string
  NewAnswer :: string

text \<open>
  A slice that is written to JSON distinguishes \<open>nil\<close> (encoded as \<open>null\<close>) from an
  allocated slice of length zero (encoded as \<open>[]\<close>): \<open>None\<close> is the nil slice.
\<close>

type_synonym 'a slice = "'a list option"

record PRRComparisonReport =
  ServiceID :: string
  PRRSubmissionIDOld :: string
  PRRSubmissionIDNew :: string
  SectionComparison :: "string \<rightharpoonup> SectionScoreComparison"
  AnswerChanges :: "AnswerChangeDetail slice"
  NewlyAnsweredQuestions :: "AnswerChangeDetail slice"
  NoLongerAnsweredQuestions :: "AnswerChangeDetail slice"

text \<open>The zero value of \<open>models.SectionScore\<close>, which a map lookup of an absent key yields.\<close>

definition zeroSectionScore :: SectionScore where
  "zeroSectionScore =
     \<lparr>SectionScore.SectionID = [], YesCount = 0, NoCount = 0, NaCount = 0\<rparr>"

section \<open>Lower-casing of responses\<close>

text \<open>
  \<open>strings.ToLower\<close> on a byte: \<open>if 'A' <= c && c <= 'Z' { c += 'a' - 'A' }\<close>
  (65, 90 and 32 are \<open>'A'\<close>, \<open>'Z'\<close> and \<open>'a' - 'A'\<close>).  Bytes outside ASCII are left as
  they are; Go lower-cases non-ASCII runes as well, but no non-ASCII rune has a lower case
  among the letters of \<open>yes\<close>, \<open>no\<close> and \<open>n/a\<close>, the only strings the result is compared
  with.
\<close>

definition toLower_byte :: "char \<Rightarrow> char" where
  "toLower_byte c =
     (let n = (of_char c :: nat) in if 65 \<le> n \<and> n \<le> 90 then char_of (n + 32) else c)"

definition ToLower :: "string \<Rightarrow> string" where
  "ToLower s = map toLower_byte s"

section \<open>Scoring (submitPRRHandler, step 3)\<close>

text \<open>
  The body of the loop \<open>for _, answer := range submission.Answers\<close>: the two
  \<open>continue\<close> branches leave the score map as it is; otherwise the section's entry is
  read (or created with its \<open>SectionID\<close> set), one counter is incremented according to
  the \<open>switch\<close> on the lower-cased response, and the entry is written back.
\<close>

definition scoreAnswer ::
  "(string \<rightharpoonup> Question) \<Rightarrow> (string \<rightharpoonup> SectionScore) \<Rightarrow> Answer \<Rightarrow> (string \<rightharpoonup> SectionScore)"
where
  "scoreAnswer questionsMap scores answer =
     (case questionsMap (Answer.QuestionID answer) of
        None \<Rightarrow> scores
      | Some question \<Rightarrow>
          (let sectionID = Question.SectionID question in
           if sectionID = [] then scores
           else
             (let score = (case scores sectionID of
                             None \<Rightarrow> \<lparr>SectionScore.SectionID = sectionID,
                                      YesCount = 0, NoCount = 0, NaCount = 0\<rparr>
                           | Some sc \<Rightarrow> sc);
                  r = ToLower (Response answer);
                  score' = (if r = ''yes'' then score\<lparr>YesCount := YesCount score + 1\<rparr>
                            else if r = ''no'' then score\<lparr>NoCount := NoCount score + 1\<rparr>
                            else if r = ''n/a'' then score\<lparr>NaCount := NaCount score + 1\<rparr>
                            else score)
              in scores(sectionID \<mapsto> score'))))"

fun scoreAnswers ::
  "(string \<rightharpoonup> Question) \<Rightarrow> (string \<rightharpoonup> SectionScore) \<Rightarrow> Answer list \<Rightarrow> (string \<rightharpoonup> SectionScore)"
where
  "scoreAnswers questionsMap scores [] = scores"
| "scoreAnswers questionsMap scores (answer # rest) =
     scoreAnswers questionsMap (scoreAnswer questionsMap scores answer) rest"

text \<open>The loop started on the fresh map \<open>make(map[string]models.SectionScore)\<close>.\<close>

definition calculateSectionScores ::
  "(string \<rightharpoonup> Question) \<Rightarrow> Answer list \<Rightarrow> (string \<rightharpoonup> SectionScore)"
where
  "calculateSectionScores questionsMap answers = scoreAnswers questionsMap Map.empty answers"

subsection \<open>What the specification counts\<close>

text \<open>
  The section an answer is tallied under, in the specification's words: the section id of
  the catalog question the answer refers to, when that question exists and its section id
  is not empty.
\<close>

definition sectionOfAnswer :: "(string \<rightharpoonup> Question) \<Rightarrow> Answer \<Rightarrow> string option" where
  "sectionOfAnswer catalog a =
     (case catalog (Answer.QuestionID a) of
        None \<Rightarrow> None
      | Some q \<Rightarrow> if Question.SectionID q = [] then None else Some (Question.SectionID q))"

text \<open>Case-insensitive equality of two strings: equal after case normalisation.\<close>

definition equalsIgnoreCase :: "string \<Rightarrow> string \<Rightarrow> bool" where
  "equalsIgnoreCase a b \<longleftrightarrow> ToLower a = ToLower b"

text \<open>The number of answers of section \<open>s\<close> whose response is, up to case, \<open>canonical\<close>.\<close>

definition countResponses ::
  "(string \<rightharpoonup> Question) \<Rightarrow> Answer list \<Rightarrow> string \<Rightarrow> string \<Rightarrow> int"
where
  "countResponses catalog answers s canonical =
     int (length (filter (\<lambda>a. sectionOfAnswer catalog a = Some s
                               \<and> equalsIgnoreCase (Response a) canonical) answers))"

text \<open>A response that matches one of the three canonical values.\<close>

definition recognised :: "string \<Rightarrow> bool" where
  "recognised r \<longleftrightarrow>
     equalsIgnoreCase r ''Yes'' \<or> equalsIgnoreCase r ''No'' \<or> equalsIgnoreCase r ''N/A''"

text \<open>
  The three counts a score map holds for a section; a section without an entry has none
  (the data model reads absence as three zeros).
\<close>

definition tally :: "(string \<rightharpoonup> SectionScore) \<Rightarrow> string \<Rightarrow> int \<times> int \<times> int" where
  "tally scores s =
     (case scores s of None \<Rightarrow> (0, 0, 0) | Some sc \<Rightarrow> (YesCount sc, NoCount sc, NaCount sc))"

text \<open>The sum of all counts over all sections of a score map.\<close>

definition totalCount :: "(string \<rightharpoonup> SectionScore) \<Rightarrow> int" where
  "totalCount scores =
     (\<Sum>s \<in> dom scores. YesCount (the (scores s)) + NoCount (the (scores s))
                          + NaCount (the (scores s)))"

section \<open>Comparison (generateComparisonReport, comparePRRSubmissionsHandler)\<close>

subsection \<open>Ranging over a map\<close>

text \<open>
  Go's \<open>for k := range m\<close> visits every key of \<open>m\<close> exactly once, in an order the
  runtime chooses.  The order is an explicit argument of the model: a loop over a map runs
  over a list of keys, and \<open>rangeOrder m ks\<close> says that \<open>ks\<close> is an order the runtime may
  choose for \<open>m\<close>.
\<close>

definition rangeOrder :: "('k \<rightharpoonup> 'v) \<Rightarrow> 'k list \<Rightarrow> bool" where
  "rangeOrder m ks \<longleftrightarrow> distinct ks \<and> set ks = dom m"

text \<open>The orders chosen for the five \<open>range\<close> loops over maps, in program order.\<close>

record iterationOrders =
  oldSectionOrder :: "string list"
  newSectionOrder :: "string list"
  allSectionOrder :: "string list"
  oldAnswerOrder :: "string list"
  newAnswerOrder :: "string list"

subsection \<open>Slices\<close>

text \<open>\<open>append(s, x)\<close>: appending to the nil slice allocates.\<close>

definition append_slice :: "'a slice \<Rightarrow> 'a \<Rightarrow> 'a slice" where
  "append_slice s x = (case s of None \<Rightarrow> Some [x] | Some xs \<Rightarrow> Some (xs @ [x]))"

text \<open>The elements of a slice; the nil slice has none.\<close>

definition elems :: "'a slice \<Rightarrow> 'a list" where
  "elems s = (case s of None \<Rightarrow> [] | Some xs \<Rightarrow> xs)"

subsection \<open>Section scores\<close>

text \<open>\<open>for id := range scores { allSectionIDs[id] = true }\<close>\<close>

fun markSectionIDs :: "(string \<rightharpoonup> bool) \<Rightarrow> string list \<Rightarrow> (string \<rightharpoonup> bool)" where
  "markSectionIDs allSectionIDs [] = allSectionIDs"
| "markSectionIDs allSectionIDs (secID # rest) =
     markSectionIDs (allSectionIDs(secID \<mapsto> True)) rest"

definition allSectionIDs ::
  "iterationOrders \<Rightarrow> (string \<rightharpoonup> bool)"
where
  "allSectionIDs ord =
     markSectionIDs (markSectionIDs Map.empty (oldSectionOrder ord)) (newSectionOrder ord)"

text \<open>\<open>score, _ := scores[secID]\<close>: the zero value when the key is absent.\<close>

definition lookupScore :: "(string \<rightharpoonup> SectionScore) \<Rightarrow> string \<Rightarrow> SectionScore" where
  "lookupScore scores secID =
     (case scores secID of None \<Rightarrow> zeroSectionScore | Some sc \<Rightarrow> sc)"

text \<open>\<open>for secID := range allSectionIDs { report.SectionComparison[secID] = ... }\<close>\<close>

fun compareSectionScores ::
  "PRRSubmission \<Rightarrow> PRRSubmission \<Rightarrow> PRRComparisonReport \<Rightarrow> string list \<Rightarrow> PRRComparisonReport"
where
  "compareSectionScores oldPRR newPRR report [] = report"
| "compareSectionScores oldPRR newPRR report (secID # rest) =
     compareSectionScores oldPRR newPRR
       (report\<lparr>SectionComparison := (SectionComparison report)(secID \<mapsto>
          \<lparr>OldScores = lookupScore (SectionScores oldPRR) secID,
           NewScores = lookupScore (SectionScores newPRR) secID\<rparr>)\<rparr>)
       rest"

subsection \<open>Individual answers\<close>

text \<open>\<open>for _, ans := range prr.Answers { answersMap[ans.QuestionID] = ans.Response }\<close>\<close>

fun answersMap :: "(string \<rightharpoonup> string) \<Rightarrow> Answer list \<Rightarrow> (string \<rightharpoonup> string)" where
  "answersMap m [] = m"
| "answersMap m (ans # rest) = answersMap (m(Answer.QuestionID ans \<mapsto> Response ans)) rest"

text \<open>\<open>questionText := ""; if q, ok := allQuestions[qID]; ok { questionText = q.Text }\<close>\<close>

definition questionTextOf :: "(string \<rightharpoonup> Question) \<Rightarrow> string \<Rightarrow> string" where
  "questionTextOf allQuestions qID =
     (case allQuestions qID of None \<Rightarrow> [] | Some q \<Rightarrow> Text q)"

text \<open>
  \<open>for qID, oldResp := range oldAnswersMap\<close>.  The loop variable \<open>oldResp\<close> is the
  map's value at \<open>qID\<close>; a key list that names a key outside the map is not an order the
  runtime can choose, and such a key is passed over.
\<close>

fun compareOldAnswers ::
  "(string \<rightharpoonup> Question) \<Rightarrow> (string \<rightharpoonup> string) \<Rightarrow> (string \<rightharpoonup> string) \<Rightarrow>
   PRRComparisonReport \<Rightarrow> string list \<Rightarrow> PRRComparisonReport"
where
  "compareOldAnswers allQuestions oldAnswersMap newAnswersMap report [] = report"
| "compareOldAnswers allQuestions oldAnswersMap newAnswersMap report (qID # rest) =
     compareOldAnswers allQuestions oldAnswersMap newAnswersMap
       (case oldAnswersMap qID of
          None \<Rightarrow> report
        | Some oldResp \<Rightarrow>
            (let questionText = questionTextOf allQuestions qID in
             case newAnswersMap qID of
               Some newResp \<Rightarrow>
                 if oldResp \<noteq> newResp
                 then report\<lparr>AnswerChanges := append_slice (AnswerChanges report)
                        \<lparr>AnswerChangeDetail.QuestionID = qID, QuestionText = questionText,
                         OldAnswer = oldResp, NewAnswer = newResp\<rparr>\<rparr>
                 else report
             | None \<Rightarrow>
                 report\<lparr>NoLongerAnsweredQuestions :=
                        append_slice (NoLongerAnsweredQuestions report)
                        \<lparr>AnswerChangeDetail.QuestionID = qID, QuestionText = questionText,
                         OldAnswer = oldResp, NewAnswer = []\<rparr>\<rparr>))
       rest"

text \<open>\<open>for qID, newResp := range newAnswersMap\<close>, with the same convention.\<close>

fun compareNewAnswers ::
  "(string \<rightharpoonup> Question) \<Rightarrow> (string \<rightharpoonup> string) \<Rightarrow> (string \<rightharpoonup> string) \<Rightarrow>
   PRRComparisonReport \<Rightarrow> string list \<Rightarrow> PRRComparisonReport"
where
  "compareNewAnswers allQuestions oldAnswersMap newAnswersMap report [] = report"
| "compareNewAnswers allQuestions oldAnswersMap newAnswersMap report (qID # rest) =
     compareNewAnswers allQuestions oldAnswersMap newAnswersMap
       (case newAnswersMap qID of
          None \<Rightarrow> report
        | Some newResp \<Rightarrow>
            (let questionText = questionTextOf allQuestions qID in
             case oldAnswersMap qID of
               None \<Rightarrow>
                 report\<lparr>NewlyAnsweredQuestions :=
                        append_slice (NewlyAnsweredQuestions report)
                        \<lparr>AnswerChangeDetail.QuestionID = qID, QuestionText = questionText,
                         OldAnswer = [], NewAnswer = newResp\<rparr>\<rparr>
             | Some _ \<Rightarrow> report))
       rest"

text \<open>
  The statements from ``Compare Section Scores'' to the last loop, which
  \<open>generateComparisonReport\<close> (lines 417 to 483) and \<open>comparePRRSubmissionsHandler\<close>
  (lines 603 to 657) contain in the same words, applied to the report each of them has
  initialised.
\<close>

definition compareInto ::
  "iterationOrders \<Rightarrow> PRRSubmission \<Rightarrow> PRRSubmission \<Rightarrow> (string \<rightharpoonup> Question) \<Rightarrow>
   PRRComparisonReport \<Rightarrow> PRRComparisonReport"
where
  "compareInto ord oldPRR newPRR allQuestions report =
     (let report1 = compareSectionScores oldPRR newPRR report (allSectionOrder ord);
          oldAnswersMap = answersMap Map.empty (Answers oldPRR);
          newAnswersMap = answersMap Map.empty (Answers newPRR);
          report2 = compareOldAnswers allQuestions oldAnswersMap newAnswersMap report1
                      (oldAnswerOrder ord)
      in compareNewAnswers allQuestions oldAnswersMap newAnswersMap report2
           (newAnswerOrder ord))"

text \<open>The orders are ones the runtime may choose for a comparison of the two submissions.\<close>

definition validOrders :: "iterationOrders \<Rightarrow> PRRSubmission \<Rightarrow> PRRSubmission \<Rightarrow> bool" where
  "validOrders ord oldPRR newPRR \<longleftrightarrow>
     rangeOrder (SectionScores oldPRR) (oldSectionOrder ord) \<and>
     rangeOrder (SectionScores newPRR) (newSectionOrder ord) \<and>
     rangeOrder (allSectionIDs ord) (allSectionOrder ord) \<and>
     rangeOrder (answersMap Map.empty (Answers oldPRR)) (oldAnswerOrder ord) \<and>
     rangeOrder (answersMap Map.empty (Answers newPRR)) (newAnswerOrder ord)"

text \<open>
  \<open>generateComparisonReport\<close>: the report starts with its three slices allocated
  (``Initialize slices to ensure they are not nil if empty'').
\<close>

definition generateComparisonReport ::
  "iterationOrders \<Rightarrow> PRRSubmission \<Rightarrow> PRRSubmission \<Rightarrow> (string \<rightharpoonup> Question) \<Rightarrow> string \<Rightarrow>
   PRRComparisonReport"
where
  "generateComparisonReport ord oldPRR newPRR allQuestions serviceID =
     compareInto ord oldPRR newPRR allQuestions
       \<lparr>PRRComparisonReport.ServiceID = serviceID,
        PRRSubmissionIDOld = PRRSubmission.ID oldPRR,
        PRRSubmissionIDNew = PRRSubmission.ID newPRR,
        SectionComparison = Map.empty,
        AnswerChanges = Some [],
        NewlyAnsweredQuestions = Some [],
        NoLongerAnsweredQuestions = Some []\<rparr>"

subsection \<open>The handler of GET /prr/compare\<close>

datatype httpError = StatusBadRequest string | StatusNotFound string

text \<open>
  \<open>comparePRRSubmissionsHandler\<close> from its query parameters to the report it encodes.
  The index \<open>prr_submissions\<close> is a map from document id to submission (a failed fetch is
  an absent document: every error of \<open>fetchSubmission\<close> is answered with status 404), and
  the question catalog is the one read from the index \<open>questions\<close>.  The report literal of
  the handler names four fields, so its three slices start as the zero value \<open>nil\<close>.
\<close>

text \<open>
  \<open>if sub1.Timestamp.Before(sub2.Timestamp) { oldPRR, newPRR = sub1, sub2 } else
  { oldPRR, newPRR = sub2, sub1 }\<close>
\<close>

definition chronological :: "PRRSubmission \<Rightarrow> PRRSubmission \<Rightarrow> PRRSubmission \<times> PRRSubmission" where
  "chronological sub1 sub2 =
     (if Timestamp sub1 < Timestamp sub2 then (sub1, sub2) else (sub2, sub1))"

definition comparePRRSubmissionsHandler ::
  "iterationOrders \<Rightarrow> (string \<rightharpoonup> PRRSubmission) \<Rightarrow> (string \<rightharpoonup> Question) \<Rightarrow>
   string \<Rightarrow> string \<Rightarrow> string \<Rightarrow> httpError + PRRComparisonReport"
where
  "comparePRRSubmissionsHandler ord submissions allQuestions serviceID prrID1 prrID2 =
     (if serviceID = [] \<or> prrID1 = [] \<or> prrID2 = []
      then Inl (StatusBadRequest
        ''Missing one or more required query parameters: service_id, prr_id1, prr_id2'')
      else if prrID1 = prrID2
      then Inl (StatusBadRequest ''prr_id1 and prr_id2 cannot be the same'')
      else
        (case submissions prrID1 of
           None \<Rightarrow> Inl (StatusNotFound prrID1)
         | Some sub1 \<Rightarrow>
             (case submissions prrID2 of
                None \<Rightarrow> Inl (StatusNotFound prrID2)
              | Some sub2 \<Rightarrow>
                  if PRRSubmission.ServiceID sub1 \<noteq> serviceID
                     \<or> PRRSubmission.ServiceID sub2 \<noteq> serviceID
                  then Inl (StatusBadRequest
                    ''Submissions do not belong to the specified service_id'')
                  else
                    (let (oldPRR, newPRR) = chronological sub1 sub2
                     in Inr (compareInto ord oldPRR newPRR allQuestions
                          \<lparr>PRRComparisonReport.ServiceID = serviceID,
                           PRRSubmissionIDOld = PRRSubmission.ID oldPRR,
                           PRRSubmissionIDNew = PRRSubmission.ID newPRR,
                           SectionComparison = Map.empty,
                           AnswerChanges = None,
                           NewlyAnsweredQuestions = None,
                           NoLongerAnsweredQuestions = None\<rparr>)))))"

section \<open>Auxiliary notions and test data\<close>

text \<open>The entry the scoring loop creates on the first answer of a section.\<close>

definition freshScore :: "string \<Rightarrow> SectionScore" where
  "freshScore s = \<lparr>SectionScore.SectionID = s, YesCount = 0, NoCount = 0, NaCount = 0\<rparr>"

definition addCounts :: "SectionScore \<Rightarrow> int \<Rightarrow> int \<Rightarrow> int \<Rightarrow> SectionScore" where
  "addCounts sc y n a =
     sc\<lparr>YesCount := YesCount sc + y, NoCount := NoCount sc + n, NaCount := NaCount sc + a\<rparr>"

definition scoreSum :: "SectionScore \<Rightarrow> int" where
  "scoreSum sc = YesCount sc + NoCount sc + NaCount sc"

text \<open>An answer that the specification expects to be counted.\<close>

definition counted :: "(string \<rightharpoonup> Question) \<Rightarrow> Answer \<Rightarrow> bool" where
  "counted catalog a \<longleftrightarrow> sectionOfAnswer catalog a \<noteq> None \<and> recognised (Response a)"

text \<open>
  The catalog of \<open>TestGenerateComparisonReport\<close>: questions \<open>q1\<close>, \<open>q2\<close> of section
  \<open>s1\<close> and \<open>q3\<close>, \<open>q4\<close> of section \<open>s2\<close>; the fields the Go literals leave out are zero.
\<close>

definition testQuestion :: "string \<Rightarrow> string \<Rightarrow> string \<Rightarrow> Question" where
  "testQuestion qid sid txt =
     \<lparr>Question.ID = qid, Question.SectionID = sid, Text = txt, Blurb = [],
      SupportingLink = [], IsEssential = False, Order = 0\<rparr>"

definition testQuestions :: "string \<rightharpoonup> Question" where
  "testQuestions =
     [''q1'' \<mapsto> testQuestion ''q1'' ''s1'' ''Question 1 Text'',
      ''q2'' \<mapsto> testQuestion ''q2'' ''s1'' ''Question 2 Text'',
      ''q3'' \<mapsto> testQuestion ''q3'' ''s2'' ''Question 3 Text'',
      ''q4'' \<mapsto> testQuestion ''q4'' ''s2'' ''Question 4 Text'']"

definition mkAnswer :: "string \<Rightarrow> string \<Rightarrow> Answer" where
  "mkAnswer qid r = \<lparr>Answer.QuestionID = qid, Response = r\<rparr>"

text \<open>
  The entry, if any, that the comparison of the answer maps \<open>old\<close> and \<open>new\<close> owes to
  question \<open>q\<close> in each of the three collections.
\<close>

definition detail :: "(string \<rightharpoonup> Question) \<Rightarrow> string \<Rightarrow> string \<Rightarrow> string \<Rightarrow> AnswerChangeDetail" where
  "detail allQuestions q oldResp newResp =
     \<lparr>AnswerChangeDetail.QuestionID = q, QuestionText = questionTextOf allQuestions q,
      OldAnswer = oldResp, NewAnswer = newResp\<rparr>"

definition changeOf ::
  "(string \<rightharpoonup> Question) \<Rightarrow> (string \<rightharpoonup> string) \<Rightarrow> (string \<rightharpoonup> string) \<Rightarrow> string \<Rightarrow>
   AnswerChangeDetail option"
where
  "changeOf allQuestions old new q =
     (case old q of
        None \<Rightarrow> None
      | Some oldResp \<Rightarrow>
          (case new q of
             None \<Rightarrow> None
           | Some newResp \<Rightarrow>
               if oldResp = newResp then None
               else Some (detail allQuestions q oldResp newResp)))"

definition droppedOf ::
  "(string \<rightharpoonup> Question) \<Rightarrow> (string \<rightharpoonup> string) \<Rightarrow> (string \<rightharpoonup> string) \<Rightarrow> string \<Rightarrow>
   AnswerChangeDetail option"
where
  "droppedOf allQuestions old new q =
     (case old q of
        None \<Rightarrow> None
      | Some oldResp \<Rightarrow>
          (case new q of
             None \<Rightarrow> Some (detail allQuestions q oldResp [])
           | Some newResp \<Rightarrow> None))"

definition addedOf ::
  "(string \<rightharpoonup> Question) \<Rightarrow> (string \<rightharpoonup> string) \<Rightarrow> (string \<rightharpoonup> string) \<Rightarrow> string \<Rightarrow>
   AnswerChangeDetail option"
where
  "addedOf allQuestions old new q =
     (case new q of
        None \<Rightarrow> None
      | Some newResp \<Rightarrow>
          (case old q of
             None \<Rightarrow> Some (detail allQuestions q [] newResp)
           | Some oldResp \<Rightarrow> None))"

text \<open>The question ids that occur in a collection of the report.\<close>

definition questionIDs :: "AnswerChangeDetail slice \<Rightarrow> string set" where
  "questionIDs s = AnswerChangeDetail.QuestionID ` set (elems s)"

text \<open>An entry with its old and new answer exchanged.\<close>

definition swapAnswers :: "AnswerChangeDetail \<Rightarrow> AnswerChangeDetail" where
  "swapAnswers d = d\<lparr>OldAnswer := NewAnswer d, NewAnswer := OldAnswer d\<rparr>"

text \<open>
  Submissions, stored scores and iteration orders of the test cases ``No changes'' (1) and
  ``Section score changes complex'' (4) of \<open>TestGenerateComparisonReport\<close>, and a pair of
  submissions (5) whose sections do not overlap.
\<close>

definition testSubmission ::
  "string \<Rightarrow> int \<Rightarrow> Answer list \<Rightarrow> (string \<rightharpoonup> SectionScore) \<Rightarrow> PRRSubmission" where
  "testSubmission pid t answers scores =
     \<lparr>PRRSubmission.ID = pid, PRRSubmission.ServiceID = ''service1'', UserID = [],
      Timestamp = t, Answers = answers, SectionScores = scores\<rparr>"

definition testScore :: "string \<Rightarrow> int \<Rightarrow> int \<Rightarrow> int \<Rightarrow> SectionScore" where
  "testScore s y n a = \<lparr>SectionScore.SectionID = s, YesCount = y, NoCount = n, NaCount = a\<rparr>"

definition prrOld1 :: PRRSubmission where
  "prrOld1 = testSubmission ''prrOld1'' 0 [mkAnswer ''q1'' ''Yes''] [''s1'' \<mapsto> testScore ''s1'' 1 0 0]"

definition prrNew1 :: PRRSubmission where
  "prrNew1 = testSubmission ''prrNew1'' 1 [mkAnswer ''q1'' ''Yes''] [''s1'' \<mapsto> testScore ''s1'' 1 0 0]"

definition orders1 :: iterationOrders where
  "orders1 = \<lparr>oldSectionOrder = [''s1''], newSectionOrder = [''s1''], allSectionOrder = [''s1''],
     oldAnswerOrder = [''q1''], newAnswerOrder = [''q1'']\<rparr>"

definition prrOld4 :: PRRSubmission where
  "prrOld4 = testSubmission ''prrOld4'' 0
     [mkAnswer ''q1'' ''Yes'', mkAnswer ''q3'' ''N/A'']
     [''s1'' \<mapsto> testScore ''s1'' 1 0 0, ''s2'' \<mapsto> testScore ''s2'' 0 0 1]"

definition prrNew4 :: PRRSubmission where
  "prrNew4 = testSubmission ''prrNew4'' 1
     [mkAnswer ''q1'' ''No'', mkAnswer ''q2'' ''Yes'', mkAnswer ''q4'' ''Yes'']
     [''s1'' \<mapsto> testScore ''s1'' 1 1 0, ''s2'' \<mapsto> testScore ''s2'' 1 0 0]"

definition orders4 :: iterationOrders where
  "orders4 = \<lparr>oldSectionOrder = [''s2'', ''s1''], newSectionOrder = [''s1'', ''s2''],
     allSectionOrder = [''s2'', ''s1''],
     oldAnswerOrder = [''q3'', ''q1''], newAnswerOrder = [''q4'', ''q1'', ''q2'']\<rparr>"

definition orders4' :: iterationOrders where
  "orders4' = \<lparr>oldSectionOrder = [''s1'', ''s2''], newSectionOrder = [''s2'', ''s1''],
     allSectionOrder = [''s1'', ''s2''],
     oldAnswerOrder = [''q1'', ''q2'', ''q4''], newAnswerOrder = [''q1'', ''q3'']\<rparr>"

definition prrOld5 :: PRRSubmission where
  "prrOld5 = testSubmission ''prrOld5'' 0 [mkAnswer ''q1'' ''Yes''] [''s1'' \<mapsto> testScore ''s1'' 1 0 0]"

definition prrNew5 :: PRRSubmission where
  "prrNew5 = testSubmission ''prrNew5'' 1 [mkAnswer ''q3'' ''No''] [''s2'' \<mapsto> testScore ''s2'' 0 1 0]"

definition orders5 :: iterationOrders where
  "orders5 = \<lparr>oldSectionOrder = [''s1''], newSectionOrder = [''s2''], allSectionOrder = [''s2'', ''s1''],
     oldAnswerOrder = [''q1''], newAnswerOrder = [''q3'']\<rparr>"

definition testStore :: "string \<rightharpoonup> PRRSubmission" where
  "testStore = [''prrOld1'' \<mapsto> prrOld1, ''prrNew1'' \<mapsto> prrNew1,
                ''prrOld5'' \<mapsto> prrOld5, ''prrNew5'' \<mapsto> prrNew5]"

section \<open>Properties of the scoring loop\<close>

subsection \<open>Lower-casing\<close>

lemma of_char_toLower_byte:
  "(of_char (toLower_byte c) :: nat) =
     (if 65 \<le> (of_char c :: nat) \<and> (of_char c :: nat) \<le> 90 then of_char c + 32 else of_char c)"
  by (simp add: toLower_byte_def Let_def of_char_of)

lemma char_eq_code: "c = d \<longleftrightarrow> (of_char c :: nat) = of_char d"
  by simp

lemma toLower_byte_eq_iff:
  "toLower_byte c = d \<longleftrightarrow>
     (if 65 \<le> (of_char c :: nat) \<and> (of_char c :: nat) \<le> 90 then of_char c + 32 else of_char c) = (of_char d :: nat)"
  by (subst char_eq_code) (simp only: of_char_toLower_byte)

lemma toLower_byte_letter:
  assumes "97 \<le> (of_char d :: nat)" "(of_char d :: nat) \<le> 122"
  shows "toLower_byte c = d \<longleftrightarrow> c = d \<or> (of_char c :: nat) + 32 = of_char d"
proof -
  have "toLower_byte c = d \<longleftrightarrow>
     (if 65 \<le> (of_char c :: nat) \<and> (of_char c :: nat) \<le> 90 then of_char c + 32 else of_char c) = (of_char d :: nat)"
    by (rule toLower_byte_eq_iff)
  also have "\<dots> \<longleftrightarrow> (of_char c :: nat) = of_char d \<or> (of_char c :: nat) + 32 = of_char d"
    using assms by auto
  finally show ?thesis by simp
qed

lemma toLower_byte_lower:
  assumes "97 \<le> (of_char d :: nat)" "(of_char d :: nat) \<le> 122"
    and "(of_char u :: nat) + 32 = of_char d"
  shows "toLower_byte c = d \<longleftrightarrow> c = d \<or> c = u"
proof -
  have "(of_char c :: nat) + 32 = of_char d \<longleftrightarrow> (of_char c :: nat) + 32 = of_char u + 32"
    by (simp only: assms(3))
  also have "\<dots> \<longleftrightarrow> c = u" by simp
  finally show ?thesis
    using assms(1,2) by (subst toLower_byte_letter) simp_all
qed

lemma toLower_byte_y: "toLower_byte c = CHR ''y'' \<longleftrightarrow> c = CHR ''y'' \<or> c = CHR ''Y''"
  by (rule toLower_byte_lower) simp_all

lemma toLower_byte_e: "toLower_byte c = CHR ''e'' \<longleftrightarrow> c = CHR ''e'' \<or> c = CHR ''E''"
  by (rule toLower_byte_lower) simp_all

lemma toLower_byte_s: "toLower_byte c = CHR ''s'' \<longleftrightarrow> c = CHR ''s'' \<or> c = CHR ''S''"
  by (rule toLower_byte_lower) simp_all

lemma toLower_byte_n: "toLower_byte c = CHR ''n'' \<longleftrightarrow> c = CHR ''n'' \<or> c = CHR ''N''"
  by (rule toLower_byte_lower) simp_all

lemma toLower_byte_o: "toLower_byte c = CHR ''o'' \<longleftrightarrow> c = CHR ''o'' \<or> c = CHR ''O''"
  by (rule toLower_byte_lower) simp_all

lemma toLower_byte_a: "toLower_byte c = CHR ''a'' \<longleftrightarrow> c = CHR ''a'' \<or> c = CHR ''A''"
  by (rule toLower_byte_lower) simp_all

lemma toLower_byte_slash: "toLower_byte c = CHR ''/'' \<longleftrightarrow> c = CHR ''/''"
  by (subst toLower_byte_eq_iff, subst char_eq_code) auto

lemma ToLower_eq_3:
  "ToLower r = [d1, d2, d3] \<longleftrightarrow>
     (\<exists>c1 c2 c3. r = [c1, c2, c3] \<and> toLower_byte c1 = d1 \<and> toLower_byte c2 = d2
        \<and> toLower_byte c3 = d3)"
  unfolding ToLower_def by (auto simp: map_eq_Cons_conv)

lemma ToLower_eq_2:
  "ToLower r = [d1, d2] \<longleftrightarrow>
     (\<exists>c1 c2. r = [c1, c2] \<and> toLower_byte c1 = d1 \<and> toLower_byte c2 = d2)"
  unfolding ToLower_def by (auto simp: map_eq_Cons_conv)

lemma ToLower_yes_iff:
  "ToLower r = ''yes'' \<longleftrightarrow>
     (\<exists>c1 c2 c3. r = [c1, c2, c3] \<and> (c1 = CHR ''y'' \<or> c1 = CHR ''Y'')
        \<and> (c2 = CHR ''e'' \<or> c2 = CHR ''E'') \<and> (c3 = CHR ''s'' \<or> c3 = CHR ''S''))"
  by (simp only: ToLower_eq_3 toLower_byte_y toLower_byte_e toLower_byte_s)

lemma ToLower_no_iff:
  "ToLower r = ''no'' \<longleftrightarrow>
     (\<exists>c1 c2. r = [c1, c2] \<and> (c1 = CHR ''n'' \<or> c1 = CHR ''N'')
        \<and> (c2 = CHR ''o'' \<or> c2 = CHR ''O''))"
  by (simp only: ToLower_eq_2 toLower_byte_n toLower_byte_o)

lemma ToLower_na_iff:
  "ToLower r = ''n/a'' \<longleftrightarrow>
     (\<exists>c1 c2 c3. r = [c1, c2, c3] \<and> (c1 = CHR ''n'' \<or> c1 = CHR ''N'')
        \<and> c2 = CHR ''/'' \<and> (c3 = CHR ''a'' \<or> c3 = CHR ''A''))"
  by (simp only: ToLower_eq_3 toLower_byte_n toLower_byte_slash toLower_byte_a)

lemma ToLower_yes: "ToLower ''yes'' = ''yes''"
  by code_simp

lemma ToLower_no: "ToLower ''no'' = ''no''"
  by code_simp

lemma ToLower_na: "ToLower ''n/a'' = ''n/a''"
  by code_simp

lemma equalsIgnoreCase_canonical:
  "equalsIgnoreCase r ''yes'' \<longleftrightarrow> ToLower r = ''yes''"
  "equalsIgnoreCase r ''no'' \<longleftrightarrow> ToLower r = ''no''"
  "equalsIgnoreCase r ''n/a'' \<longleftrightarrow> ToLower r = ''n/a''"
  by (simp_all add: equalsIgnoreCase_def ToLower_yes ToLower_no ToLower_na)

lemma ToLower_Yes: "ToLower ''Yes'' = ''yes''"
  by code_simp

lemma ToLower_No: "ToLower ''No'' = ''no''"
  by code_simp

lemma ToLower_NA: "ToLower ''N/A'' = ''n/a''"
  by code_simp

lemma equalsIgnoreCase_Canonical:
  "equalsIgnoreCase r ''Yes'' \<longleftrightarrow> ToLower r = ''yes''"
  "equalsIgnoreCase r ''No'' \<longleftrightarrow> ToLower r = ''no''"
  "equalsIgnoreCase r ''N/A'' \<longleftrightarrow> ToLower r = ''n/a''"
  by (simp_all add: equalsIgnoreCase_def ToLower_Yes ToLower_No ToLower_NA)

text \<open>
  Spelled out: the responses that match a canonical value are its case variants, and
  nothing else.
\<close>

lemma equalsIgnoreCase_Yes_iff:
  "equalsIgnoreCase r ''Yes'' \<longleftrightarrow>
     (\<exists>c1 c2 c3. r = [c1, c2, c3] \<and> (c1 = CHR ''y'' \<or> c1 = CHR ''Y'')
        \<and> (c2 = CHR ''e'' \<or> c2 = CHR ''E'') \<and> (c3 = CHR ''s'' \<or> c3 = CHR ''S''))"
  by (simp only: equalsIgnoreCase_Canonical ToLower_yes_iff)

lemma equalsIgnoreCase_No_iff:
  "equalsIgnoreCase r ''No'' \<longleftrightarrow>
     (\<exists>c1 c2. r = [c1, c2] \<and> (c1 = CHR ''n'' \<or> c1 = CHR ''N'')
        \<and> (c2 = CHR ''o'' \<or> c2 = CHR ''O''))"
  by (simp only: equalsIgnoreCase_Canonical ToLower_no_iff)

lemma equalsIgnoreCase_NA_iff:
  "equalsIgnoreCase r ''N/A'' \<longleftrightarrow>
     (\<exists>c1 c2 c3. r = [c1, c2, c3] \<and> (c1 = CHR ''n'' \<or> c1 = CHR ''N'')
        \<and> c2 = CHR ''/'' \<and> (c3 = CHR ''a'' \<or> c3 = CHR ''A''))"
  by (simp only: equalsIgnoreCase_Canonical ToLower_na_iff)

subsection \<open>The score map after the loop\<close>

lemma scoreAnswer_skip: "sectionOfAnswer qm a = None \<Longrightarrow> scoreAnswer qm m a = m"
  by (auto simp: sectionOfAnswer_def scoreAnswer_def split: option.splits if_splits)

lemma scoreAnswer_other:
  "sectionOfAnswer qm a \<noteq> Some s \<Longrightarrow> scoreAnswer qm m a s = m s"
  by (auto simp: sectionOfAnswer_def scoreAnswer_def Let_def split: option.splits if_splits)

lemma scoreAnswer_hit:
  "sectionOfAnswer qm a = Some s \<Longrightarrow>
   scoreAnswer qm m a s =
     Some (addCounts (case m s of None \<Rightarrow> freshScore s | Some sc \<Rightarrow> sc)
        (if equalsIgnoreCase (Response a) ''yes'' then 1 else 0)
        (if equalsIgnoreCase (Response a) ''no'' then 1 else 0)
        (if equalsIgnoreCase (Response a) ''n/a'' then 1 else 0))"
  by (auto simp: sectionOfAnswer_def scoreAnswer_def Let_def addCounts_def freshScore_def equalsIgnoreCase_canonical split: option.splits if_splits)

lemma scoreAnswers_lookup:
  "scoreAnswers qm m answers s =
     (if \<exists>a \<in> set answers. sectionOfAnswer qm a = Some s
      then Some (addCounts (case m s of None \<Rightarrow> freshScore s | Some sc \<Rightarrow> sc)
                  (countResponses qm answers s ''yes'') (countResponses qm answers s ''no'') (countResponses qm answers s ''n/a''))
      else m s)"
proof (induction answers arbitrary: m)
  case Nil
  then show ?case by simp
next
  case (Cons a rest)
  show ?case
  proof (cases "sectionOfAnswer qm a = Some s")
    case True
    then show ?thesis
      by (simp add: Cons.IH scoreAnswer_hit countResponses_def addCounts_def)
  next
    case False
    then show ?thesis
      by (simp add: Cons.IH scoreAnswer_other countResponses_def)
  qed
qed

lemma calculateSectionScores_lookup:
  "calculateSectionScores qm answers s =
     (if \<exists>a \<in> set answers. sectionOfAnswer qm a = Some s
      then Some \<lparr>SectionScore.SectionID = s,
                 YesCount = countResponses qm answers s ''yes'',
                 NoCount = countResponses qm answers s ''no'',
                 NaCount = countResponses qm answers s ''n/a''\<rparr>
      else None)"
  by (simp add: calculateSectionScores_def scoreAnswers_lookup addCounts_def freshScore_def)

lemma scoreAnswers_append:
  "scoreAnswers qm m (xs @ ys) = scoreAnswers qm (scoreAnswers qm m xs) ys"
  by (induction xs arbitrary: m) simp_all

lemma countResponses_mset:
  assumes "mset xs = mset ys"
  shows "countResponses qm xs s r = countResponses qm ys s r"
proof -
  let ?P = "\<lambda>a. sectionOfAnswer qm a = Some s \<and> equalsIgnoreCase (Response a) r"
  have "mset (filter ?P xs) = mset (filter ?P ys)"
    using assms by (simp only: mset_filter)
  then have "length (filter ?P xs) = length (filter ?P ys)"
    by (rule mset_eq_length)
  then show ?thesis by (simp add: countResponses_def)
qed

subsection \<open>The total of all counts\<close>

lemma totalCount_alt: "totalCount m = (\<Sum>s \<in> dom m. scoreSum (the (m s)))"
  by (simp add: totalCount_def scoreSum_def)

lemma totalCount_upd:
  assumes "finite (dom m)"
  shows "totalCount (m(s \<mapsto> v)) = totalCount m - (case m s of None \<Rightarrow> 0 | Some sc \<Rightarrow> scoreSum sc) + scoreSum v"
proof -
  have fin: "finite (dom m - {s})" using assms by simp
  have "totalCount (m(s \<mapsto> v)) = (\<Sum>x \<in> insert s (dom m - {s}). scoreSum (the ((m(s \<mapsto> v)) x)))"
    by (simp add: totalCount_alt)
  also have "\<dots> = scoreSum v + (\<Sum>x \<in> dom m - {s}. scoreSum (the ((m(s \<mapsto> v)) x)))"
    using fin by (subst sum.insert) simp_all
  also have "(\<Sum>x \<in> dom m - {s}. scoreSum (the ((m(s \<mapsto> v)) x))) = (\<Sum>x \<in> dom m - {s}. scoreSum (the (m x)))"
    by (rule sum.cong) simp_all
  finally have new: "totalCount (m(s \<mapsto> v)) = scoreSum v + (\<Sum>x \<in> dom m - {s}. scoreSum (the (m x)))" .
  show ?thesis
  proof (cases "m s")
    case None
    then have "dom m - {s} = dom m" by auto
    with new None show ?thesis by (simp add: totalCount_alt)
  next
    case (Some sc)
    then have "s \<in> dom m" by auto
    with assms have "totalCount m = scoreSum (the (m s)) + (\<Sum>x \<in> dom m - {s}. scoreSum (the (m x)))"
      by (simp add: totalCount_alt sum.remove)
    with new Some show ?thesis by simp
  qed
qed

lemma finite_dom_scoreAnswer: "finite (dom m) \<Longrightarrow> finite (dom (scoreAnswer qm m a))"
  by (auto simp: scoreAnswer_def Let_def split: option.splits)

lemma totalCount_scoreAnswer:
  assumes "finite (dom m)"
  shows "totalCount (scoreAnswer qm m a) = totalCount m + (if counted qm a then 1 else 0)"
proof (cases "sectionOfAnswer qm a")
  case None
  then show ?thesis by (simp add: scoreAnswer_skip counted_def)
next
  case (Some s)
  then obtain q where q: "qm (Answer.QuestionID a) = Some q" "Question.SectionID q = s" "s \<noteq> []"
    by (auto simp: sectionOfAnswer_def split: option.splits if_splits)
  show ?thesis
    using q Some
    by (cases "m s")
      (simp_all add: scoreAnswer_def Let_def totalCount_upd [OF assms] counted_def recognised_def
        equalsIgnoreCase_Canonical scoreSum_def)
qed

lemma totalCount_scoreAnswers:
  "finite (dom m) \<Longrightarrow>
   totalCount (scoreAnswers qm m answers) = totalCount m + int (length (filter (counted qm) answers))"
proof (induction answers arbitrary: m)
  case Nil
  then show ?case by simp
next
  case (Cons a rest)
  from Cons.prems have "finite (dom (scoreAnswer qm m a))" by (rule finite_dom_scoreAnswer)
  then show ?case
    using Cons.prems by (simp add: Cons.IH totalCount_scoreAnswer)
qed

lemma totalCount_calculateSectionScores:
  "totalCount (calculateSectionScores qm answers) = int (length (filter (counted qm) answers))"
proof -
  have "totalCount (scoreAnswers qm Map.empty answers) =
      totalCount Map.empty + int (length (filter (counted qm) answers))"
    by (rule totalCount_scoreAnswers) simp
  then show ?thesis
    by (simp add: calculateSectionScores_def totalCount_alt)
qed

lemma length_filter_eq_iff: "length (filter P xs) = length xs \<longleftrightarrow> (\<forall>x \<in> set xs. P x)"
proof
  assume eq: "length (filter P xs) = length xs"
  show "\<forall>x \<in> set xs. P x"
  proof
    fix x assume "x \<in> set xs"
    show "P x"
    proof (rule ccontr)
      assume "\<not> P x"
      with \<open>x \<in> set xs\<close> have "length (filter P xs) < length xs"
        by (rule length_filter_less)
      with eq show False by simp
    qed
  qed
next
  assume "\<forall>x \<in> set xs. P x"
  then have "filter P xs = xs" by simp
  then show "length (filter P xs) = length xs" by simp
qed

lemma tally_calculateSectionScores:
  "tally (calculateSectionScores qm answers) s =
     (countResponses qm answers s ''yes'', countResponses qm answers s ''no'', countResponses qm answers s ''n/a'')"
  by (auto simp: tally_def calculateSectionScores_lookup countResponses_def filter_empty_conv)

subsection \<open>Evaluation on concrete responses\<close>

lemma ToLower_NO: "ToLower ''NO'' = ''no''"
  by code_simp

lemma ToLower_nA: "ToLower ''n/A'' = ''n/a''"
  by code_simp

lemma ToLower_Maybe: "ToLower ''Maybe'' = ''maybe''"
  by code_simp

lemma ToLower_yEs: "ToLower ''yEs'' = ''yes''"
  by code_simp

lemmas ToLower_examples = ToLower_yes ToLower_no ToLower_na ToLower_Yes ToLower_No ToLower_NA
  ToLower_NO ToLower_nA ToLower_Maybe ToLower_yEs

lemmas scoring_eval = calculateSectionScores_def scoreAnswer_def testQuestions_def testQuestion_def
  mkAnswer_def ToLower_examples Let_def

section \<open>Claims about scoring\<close>

text \<open>
  Claim C1.  For every list of answers and every catalog, each entry of the score map the
  scoring loop produces holds, as its yes, no and n/a counts, exactly the number of answers
  whose question the catalog maps to that (non-empty) section id and whose response equals
  \<open>yes\<close>, \<open>no\<close> and \<open>n/a\<close> respectively, up to case.
\<close>

theorem section_counts_exact:
  assumes "calculateSectionScores catalog answers s = Some sc"
  shows "YesCount sc = countResponses catalog answers s ''yes'' \<and>
         NoCount sc = countResponses catalog answers s ''no'' \<and>
         NaCount sc = countResponses catalog answers s ''n/a''"
  using assms by (auto simp: calculateSectionScores_lookup split: if_splits)

theorem section_counts_exact_witness:
  "calculateSectionScores testQuestions
     [mkAnswer ''q1'' ''Yes'', mkAnswer ''q2'' ''NO'', mkAnswer ''q3'' ''n/A'', mkAnswer ''qX'' ''yes'',
      mkAnswer ''q1'' ''Maybe''] ''s1''
     = Some \<lparr>SectionScore.SectionID = ''s1'', YesCount = 1, NoCount = 1, NaCount = 0\<rparr> \<and>
   countResponses testQuestions
     [mkAnswer ''q1'' ''Yes'', mkAnswer ''q2'' ''NO'', mkAnswer ''q3'' ''n/A'', mkAnswer ''qX'' ''yes'',
      mkAnswer ''q1'' ''Maybe''] ''s1'' ''yes'' = 1 \<and>
   countResponses testQuestions
     [mkAnswer ''q1'' ''Yes'', mkAnswer ''q2'' ''NO'', mkAnswer ''q3'' ''n/A'', mkAnswer ''qX'' ''yes'',
      mkAnswer ''q1'' ''Maybe''] ''s1'' ''no'' = 1 \<and>
   countResponses testQuestions
     [mkAnswer ''q1'' ''Yes'', mkAnswer ''q2'' ''NO'', mkAnswer ''q3'' ''n/A'', mkAnswer ''qX'' ''yes'',
      mkAnswer ''q1'' ''Maybe''] ''s1'' ''n/a'' = 0"
proof -
  have h: "calculateSectionScores testQuestions
     [mkAnswer ''q1'' ''Yes'', mkAnswer ''q2'' ''NO'', mkAnswer ''q3'' ''n/A'', mkAnswer ''qX'' ''yes'',
      mkAnswer ''q1'' ''Maybe''] ''s1''
     = Some \<lparr>SectionScore.SectionID = ''s1'', YesCount = 1, NoCount = 1, NaCount = 0\<rparr>"
    by (simp add: scoring_eval)
  from section_counts_exact [OF h] h show ?thesis by simp
qed

text \<open>
  Claim C5.  For an answer to a catalog question of a non-empty section \<open>s\<close>: a response
  equal up to case to \<open>Yes\<close>, \<open>No\<close> or \<open>N/A\<close> increments that one counter of \<open>s\<close>; a
  response matching none of the three changes no count of any section, wherever the
  answer stands in the list, so the answers after it are scored as before; and scoring
  that answer alone gives \<open>s\<close> the tally of three zeros.
\<close>

theorem unrecognised_response_ignored:
  assumes "catalog (Answer.QuestionID a) = Some q" and "Question.SectionID q = s" and "s \<noteq> []"
  shows "(equalsIgnoreCase (Response a) ''Yes'' \<longrightarrow>
            tally (scoreAnswer catalog scores a) s =
              (case tally scores s of (y, n, na) \<Rightarrow> (y + 1, n, na))) \<and>
         (equalsIgnoreCase (Response a) ''No'' \<longrightarrow>
            tally (scoreAnswer catalog scores a) s =
              (case tally scores s of (y, n, na) \<Rightarrow> (y, n + 1, na))) \<and>
         (equalsIgnoreCase (Response a) ''N/A'' \<longrightarrow>
            tally (scoreAnswer catalog scores a) s =
              (case tally scores s of (y, n, na) \<Rightarrow> (y, n, na + 1))) \<and>
         (\<not> recognised (Response a) \<longrightarrow>
            tally (scoreAnswer catalog scores a) = tally scores \<and>
            tally (calculateSectionScores catalog (pre @ a # post)) =
              tally (calculateSectionScores catalog (pre @ post)) \<and>
            calculateSectionScores catalog [a] s =
              Some \<lparr>SectionScore.SectionID = s, YesCount = 0, NoCount = 0, NaCount = 0\<rparr>)"
proof -
  from assms have sec: "sectionOfAnswer catalog a = Some s"
    by (simp add: sectionOfAnswer_def)
  have step: "tally (scoreAnswer catalog scores a) s =
      (case tally scores s of (y, n, na) \<Rightarrow>
         (y + (if equalsIgnoreCase (Response a) ''Yes'' then 1 else 0),
          n + (if equalsIgnoreCase (Response a) ''No'' then 1 else 0),
          na + (if equalsIgnoreCase (Response a) ''N/A'' then 1 else 0)))"
    by (cases "scores s")
      (simp_all add: tally_def scoreAnswer_hit [OF sec] addCounts_def freshScore_def
        equalsIgnoreCase_Canonical equalsIgnoreCase_canonical)
  have other: "tally (scoreAnswer catalog scores a) s' = tally scores s'" if "s' \<noteq> s" for s'
    using that sec by (simp add: tally_def scoreAnswer_other)
  have excl: "\<not> (equalsIgnoreCase (Response a) ''Yes'' \<and> equalsIgnoreCase (Response a) ''No'')"
    "\<not> (equalsIgnoreCase (Response a) ''Yes'' \<and> equalsIgnoreCase (Response a) ''N/A'')"
    "\<not> (equalsIgnoreCase (Response a) ''No'' \<and> equalsIgnoreCase (Response a) ''N/A'')"
    by (auto simp: equalsIgnoreCase_Canonical)
  have unrec: "tally (scoreAnswer catalog scores a) = tally scores
      \<and> tally (calculateSectionScores catalog (pre @ a # post)) =
              tally (calculateSectionScores catalog (pre @ post))
      \<and> calculateSectionScores catalog [a] s =
              Some \<lparr>SectionScore.SectionID = s, YesCount = 0, NoCount = 0, NaCount = 0\<rparr>"
    if "\<not> recognised (Response a)"
  proof -
    from that have no: "\<not> equalsIgnoreCase (Response a) ''Yes''" "\<not> equalsIgnoreCase (Response a) ''No''"
      "\<not> equalsIgnoreCase (Response a) ''N/A''"
      by (simp_all add: recognised_def)
    then have no': "\<not> equalsIgnoreCase (Response a) ''yes''" "\<not> equalsIgnoreCase (Response a) ''no''"
      "\<not> equalsIgnoreCase (Response a) ''n/a''"
      by (simp_all add: equalsIgnoreCase_Canonical equalsIgnoreCase_canonical)
    have "tally (scoreAnswer catalog scores a) s' = tally scores s'" for s'
      using step other [of s'] no by (cases "s' = s") (auto split: prod.splits)
    then have 1: "tally (scoreAnswer catalog scores a) = tally scores" by (rule ext)
    have 2: "tally (calculateSectionScores catalog (pre @ a # post)) =
              tally (calculateSectionScores catalog (pre @ post))"
      by (rule ext) (simp add: tally_calculateSectionScores countResponses_def no')
    have 3: "calculateSectionScores catalog [a] s =
              Some \<lparr>SectionScore.SectionID = s, YesCount = 0, NoCount = 0, NaCount = 0\<rparr>"
      by (simp add: calculateSectionScores_lookup sec countResponses_def no')
    from 1 2 3 show ?thesis by simp
  qed
  show ?thesis
    using step excl unrec by (auto split: prod.splits)
qed

theorem unrecognised_response_ignored_witness:
  "testQuestions (Answer.QuestionID (mkAnswer ''q1'' ''Maybe'')) = Some (testQuestion ''q1'' ''s1'' ''Question 1 Text'') \<and>
   \<not> recognised (Response (mkAnswer ''q1'' ''Maybe'')) \<and>
   calculateSectionScores testQuestions [mkAnswer ''q1'' ''Maybe''] ''s1'' =
     Some \<lparr>SectionScore.SectionID = ''s1'', YesCount = 0, NoCount = 0, NaCount = 0\<rparr> \<and>
   equalsIgnoreCase (Response (mkAnswer ''q1'' ''yEs'')) ''Yes'' \<and>
   tally (scoreAnswer testQuestions Map.empty (mkAnswer ''q1'' ''yEs'')) ''s1'' = (1, 0, 0)"
proof -
  have q: "testQuestions (Answer.QuestionID (mkAnswer ''q1'' ''Maybe'')) = Some (testQuestion ''q1'' ''s1'' ''Question 1 Text'')"
    "testQuestions (Answer.QuestionID (mkAnswer ''q1'' ''yEs'')) = Some (testQuestion ''q1'' ''s1'' ''Question 1 Text'')"
    by (simp_all add: testQuestions_def mkAnswer_def)
  have s: "Question.SectionID (testQuestion ''q1'' ''s1'' ''Question 1 Text'') = ''s1''"
    by (simp add: testQuestion_def)
  have n: "''s1'' \<noteq> []" by simp
  have r: "\<not> recognised (Response (mkAnswer ''q1'' ''Maybe''))" "equalsIgnoreCase (Response (mkAnswer ''q1'' ''yEs'')) ''Yes''"
    by (simp_all add: recognised_def equalsIgnoreCase_def ToLower_examples mkAnswer_def)
  from unrecognised_response_ignored [where catalog = testQuestions
      and a = "mkAnswer ''q1'' ''Maybe''" and s = "''s1''" and scores = Map.empty
      and pre = "[]" and post = "[]", OF q(1) s n]
    unrecognised_response_ignored [where catalog = testQuestions
      and a = "mkAnswer ''q1'' ''yEs''" and s = "''s1''" and scores = Map.empty
      and pre = "[]" and post = "[]", OF q(2) s n] q r
  show ?thesis by (simp add: tally_def)
qed

text \<open>
  Claim C6.  An answer whose question id is absent from the catalog, or whose catalog
  question has an empty section id, leaves the score map as it is; the scores of a list
  that contains it are those of the list without it; and scored alone it yields the
  empty map.  Scoring has no error result.
\<close>

theorem unscorable_answer_skipped:
  assumes "catalog (Answer.QuestionID a) = None \<or>
           (\<exists>q. catalog (Answer.QuestionID a) = Some q \<and> Question.SectionID q = [])"
  shows "scoreAnswer catalog scores a = scores \<and>
         calculateSectionScores catalog (pre @ a # post) = calculateSectionScores catalog (pre @ post) \<and>
         calculateSectionScores catalog [a] = Map.empty"
proof -
  from assms have "sectionOfAnswer catalog a = None"
    by (auto simp: sectionOfAnswer_def)
  then have skip: "\<And>m. scoreAnswer catalog m a = m"
    by (rule scoreAnswer_skip)
  then show ?thesis
    by (simp add: calculateSectionScores_def scoreAnswers_append)
qed

theorem unscorable_answer_skipped_witness:
  "Map.empty (Answer.QuestionID (mkAnswer ''qX'' ''yes'')) = None \<and>
   calculateSectionScores Map.empty [mkAnswer ''qX'' ''yes''] = Map.empty \<and>
   calculateSectionScores testQuestions [mkAnswer ''q1'' ''Yes'', mkAnswer ''qX'' ''yes'', mkAnswer ''q3'' ''No'']
     = calculateSectionScores testQuestions [mkAnswer ''q1'' ''Yes'', mkAnswer ''q3'' ''No'']"
proof -
  have h: "Map.empty (Answer.QuestionID (mkAnswer ''qX'' ''yes'')) = None \<or>
       (\<exists>q. Map.empty (Answer.QuestionID (mkAnswer ''qX'' ''yes'')) = Some q \<and> Question.SectionID q = [])"
    by simp
  have h': "testQuestions (Answer.QuestionID (mkAnswer ''qX'' ''yes'')) = None \<or>
       (\<exists>q. testQuestions (Answer.QuestionID (mkAnswer ''qX'' ''yes'')) = Some q \<and> Question.SectionID q = [])"
    by (simp add: testQuestions_def mkAnswer_def)
  from unscorable_answer_skipped [where catalog = Map.empty and a = "mkAnswer ''qX'' ''yes''"
      and pre = "[]" and post = "[]", OF h]
    unscorable_answer_skipped [where catalog = testQuestions and a = "mkAnswer ''qX'' ''yes''"
      and pre = "[mkAnswer ''q1'' ''Yes'']" and post = "[mkAnswer ''q3'' ''No'']", OF h']
  show ?thesis by (intro conjI) (simp, blast, simp)
qed

text \<open>
  Claim C7.  The sum of all counts over all sections of the scoring result is at most the
  number of answers, with equality exactly when every answer refers to a catalog question
  with a non-empty section id and carries a response that matches one of the three
  canonical values up to case.
\<close>

theorem total_count_bound:
  "totalCount (calculateSectionScores catalog answers) \<le> int (length answers) \<and>
   (totalCount (calculateSectionScores catalog answers) = int (length answers) \<longleftrightarrow>
      (\<forall>a \<in> set answers.
         (\<exists>q. catalog (Answer.QuestionID a) = Some q \<and> Question.SectionID q \<noteq> []) \<and>
         recognised (Response a)))"
proof -
  have c: "counted catalog a \<longleftrightarrow>
        (\<exists>q. catalog (Answer.QuestionID a) = Some q \<and> Question.SectionID q \<noteq> []) \<and> recognised (Response a)" for a
    by (auto simp: counted_def sectionOfAnswer_def split: option.splits)
  show ?thesis
    by (simp add: totalCount_calculateSectionScores length_filter_eq_iff c)
qed

theorem total_count_bound_witness:
  "totalCount (calculateSectionScores testQuestions [mkAnswer ''q1'' ''Yes'', mkAnswer ''q3'' ''n/A'']) = 2 \<and>
   totalCount (calculateSectionScores testQuestions [mkAnswer ''q1'' ''Yes'', mkAnswer ''q3'' ''Maybe'']) < 2"
proof -
  let ?ok = "\<lambda>a. (\<exists>q. testQuestions (Answer.QuestionID a) = Some q \<and> Question.SectionID q \<noteq> [])
                  \<and> recognised (Response a)"
  have r: "recognised ''Yes''" "recognised ''n/A''" "\<not> recognised ''Maybe''"
    by (simp_all add: recognised_def equalsIgnoreCase_def ToLower_examples)
  have all: "\<forall>a \<in> set [mkAnswer ''q1'' ''Yes'', mkAnswer ''q3'' ''n/A'']. ?ok a"
    by (simp add: testQuestions_def testQuestion_def mkAnswer_def r)
  have notall: "\<not> (\<forall>a \<in> set [mkAnswer ''q1'' ''Yes'', mkAnswer ''q3'' ''Maybe'']. ?ok a)"
    by (simp add: mkAnswer_def r)
  have "totalCount (calculateSectionScores testQuestions
          [mkAnswer ''q1'' ''Yes'', mkAnswer ''q3'' ''n/A''])
        = int (length [mkAnswer ''q1'' ''Yes'', mkAnswer ''q3'' ''n/A''])"
    using total_count_bound [of testQuestions "[mkAnswer ''q1'' ''Yes'', mkAnswer ''q3'' ''n/A'']"] all
    by blast
  moreover have "totalCount (calculateSectionScores testQuestions
          [mkAnswer ''q1'' ''Yes'', mkAnswer ''q3'' ''Maybe''])
        \<le> int (length [mkAnswer ''q1'' ''Yes'', mkAnswer ''q3'' ''Maybe'']) \<and>
      totalCount (calculateSectionScores testQuestions
          [mkAnswer ''q1'' ''Yes'', mkAnswer ''q3'' ''Maybe''])
        \<noteq> int (length [mkAnswer ''q1'' ''Yes'', mkAnswer ''q3'' ''Maybe''])"
    using total_count_bound [of testQuestions "[mkAnswer ''q1'' ''Yes'', mkAnswer ''q3'' ''Maybe'']"] notall
    by blast
  ultimately show ?thesis by simp
qed

text \<open>
  Claim C9.  The scoring result is a function of the answers and the catalog, and it is
  the same map for every permutation of the list of answers.
\<close>

theorem scoring_order_independent:
  assumes "mset answers = mset answers'"
  shows "calculateSectionScores catalog answers = calculateSectionScores catalog answers'"
proof
  fix s
  from assms have "set answers = set answers'" by (rule mset_eq_setD)
  then show "calculateSectionScores catalog answers s = calculateSectionScores catalog answers' s"
    by (simp add: calculateSectionScores_lookup countResponses_mset [OF assms])
qed

theorem scoring_order_independent_witness:
  "mset [mkAnswer ''q1'' ''Yes'', mkAnswer ''q3'' ''No''] = mset [mkAnswer ''q3'' ''No'', mkAnswer ''q1'' ''Yes''] \<and>
   calculateSectionScores testQuestions [mkAnswer ''q1'' ''Yes'', mkAnswer ''q3'' ''No'']
     = calculateSectionScores testQuestions [mkAnswer ''q3'' ''No'', mkAnswer ''q1'' ''Yes'']"
proof -
  have h: "mset [mkAnswer ''q1'' ''Yes'', mkAnswer ''q3'' ''No''] = mset [mkAnswer ''q3'' ''No'', mkAnswer ''q1'' ''Yes'']"
    by (simp add: add.commute)
  from scoring_order_independent [OF h] h show ?thesis by simp
qed

section \<open>Properties of the comparison\<close>

subsection \<open>Slices\<close>

lemma elems_append_slice: "elems (append_slice s x) = elems s @ [x]"
  by (cases s) (simp_all add: elems_def append_slice_def)

lemma append_slice_not_nil: "append_slice s x \<noteq> None"
  by (cases s) (simp_all add: append_slice_def)

lemma set_map_filter: "set (List.map_filter f xs) = {y. \<exists>x \<in> set xs. f x = Some y}"
  by (induction xs) (auto simp: List.map_filter_simps split: option.splits)

subsection \<open>Section scores\<close>

lemma dom_markSectionIDs: "dom (markSectionIDs m ks) = dom m \<union> set ks"
  by (induction ks arbitrary: m) auto

lemma dom_allSectionIDs:
  "dom (allSectionIDs ord) = set (oldSectionOrder ord) \<union> set (newSectionOrder ord)"
  by (simp add: allSectionIDs_def dom_markSectionIDs)

lemma compareSectionScores_slices:
  "AnswerChanges (compareSectionScores old new r ks) = AnswerChanges r"
  "NewlyAnsweredQuestions (compareSectionScores old new r ks) = NewlyAnsweredQuestions r"
  "NoLongerAnsweredQuestions (compareSectionScores old new r ks) = NoLongerAnsweredQuestions r"
  by (induction ks arbitrary: r) simp_all

lemma compareSectionScores_lookup:
  "SectionComparison (compareSectionScores old new r ks) s =
     (if s \<in> set ks
      then Some \<lparr>OldScores = lookupScore (SectionScores old) s,
                 NewScores = lookupScore (SectionScores new) s\<rparr>
      else SectionComparison r s)"
  by (induction ks arbitrary: r) auto

subsection \<open>Answer maps\<close>

lemma answersMap_lookup:
  "answersMap m xs q = Some r \<Longrightarrow>
     m q = Some r \<or> (\<exists>a \<in> set xs. Answer.QuestionID a = q \<and> Response a = r)"
proof (induction xs arbitrary: m)
  case Nil
  then show ?case by simp
next
  case (Cons a xs)
  from Cons.prems have "answersMap (m(Answer.QuestionID a \<mapsto> Response a)) xs q = Some r"
    by simp
  from Cons.IH [OF this] show ?case
    by (auto split: if_splits)
qed

lemma answersMap_answered:
  assumes "answersMap Map.empty xs q = Some r"
  shows "mkAnswer q r \<in> set xs"
proof -
  from answersMap_lookup [OF assms] obtain a where "a \<in> set xs" "Answer.QuestionID a = q" "Response a = r"
    by auto
  moreover from this have "a = mkAnswer q r" by (simp add: mkAnswer_def)
  ultimately show ?thesis by simp
qed

subsection \<open>The two loops over the answer maps\<close>

lemma compareOldAnswers_section:
  "SectionComparison (compareOldAnswers allQ om nm r ks) = SectionComparison r"
  by (induction ks arbitrary: r) (simp_all add: Let_def split: option.splits)

lemma compareOldAnswers_newly:
  "NewlyAnsweredQuestions (compareOldAnswers allQ om nm r ks) = NewlyAnsweredQuestions r"
  by (induction ks arbitrary: r) (simp_all add: Let_def split: option.splits)

lemma compareOldAnswers_changes:
  "elems (AnswerChanges (compareOldAnswers allQ om nm r ks)) =
     elems (AnswerChanges r) @ List.map_filter (changeOf allQ om nm) ks"
  by (induction ks arbitrary: r)
    (simp_all add: Let_def List.map_filter_simps changeOf_def detail_def elems_append_slice
      split: option.splits)

lemma compareOldAnswers_dropped:
  "elems (NoLongerAnsweredQuestions (compareOldAnswers allQ om nm r ks)) =
     elems (NoLongerAnsweredQuestions r) @ List.map_filter (droppedOf allQ om nm) ks"
  by (induction ks arbitrary: r)
    (simp_all add: Let_def List.map_filter_simps droppedOf_def detail_def elems_append_slice
      split: option.splits)

lemma compareNewAnswers_section:
  "SectionComparison (compareNewAnswers allQ om nm r ks) = SectionComparison r"
  by (induction ks arbitrary: r) (simp_all add: Let_def split: option.splits)

lemma compareNewAnswers_changes:
  "AnswerChanges (compareNewAnswers allQ om nm r ks) = AnswerChanges r"
  by (induction ks arbitrary: r) (simp_all add: Let_def split: option.splits)

lemma compareNewAnswers_dropped:
  "NoLongerAnsweredQuestions (compareNewAnswers allQ om nm r ks) = NoLongerAnsweredQuestions r"
  by (induction ks arbitrary: r) (simp_all add: Let_def split: option.splits)

lemma compareNewAnswers_added:
  "elems (NewlyAnsweredQuestions (compareNewAnswers allQ om nm r ks)) =
     elems (NewlyAnsweredQuestions r) @ List.map_filter (addedOf allQ om nm) ks"
  by (induction ks arbitrary: r)
    (simp_all add: Let_def List.map_filter_simps addedOf_def detail_def elems_append_slice
      split: option.splits)

text \<open>A slice that was allocated stays allocated; a nil slice stays nil until an append.\<close>

lemma compareOldAnswers_changes_nil:
  "AnswerChanges (compareOldAnswers allQ om nm r ks) = None \<longleftrightarrow>
     AnswerChanges r = None \<and> List.map_filter (changeOf allQ om nm) ks = []"
  by (induction ks arbitrary: r)
    (auto simp: Let_def List.map_filter_simps changeOf_def append_slice_not_nil
      split: option.splits)

lemma compareOldAnswers_dropped_nil:
  "NoLongerAnsweredQuestions (compareOldAnswers allQ om nm r ks) = None \<longleftrightarrow>
     NoLongerAnsweredQuestions r = None \<and> List.map_filter (droppedOf allQ om nm) ks = []"
  by (induction ks arbitrary: r)
    (auto simp: Let_def List.map_filter_simps droppedOf_def append_slice_not_nil
      split: option.splits)

lemma compareNewAnswers_added_nil:
  "NewlyAnsweredQuestions (compareNewAnswers allQ om nm r ks) = None \<longleftrightarrow>
     NewlyAnsweredQuestions r = None \<and> List.map_filter (addedOf allQ om nm) ks = []"
  by (induction ks arbitrary: r)
    (auto simp: Let_def List.map_filter_simps addedOf_def append_slice_not_nil
      split: option.splits)

subsection \<open>The report\<close>

lemma compareInto_section:
  "SectionComparison (compareInto ord old new allQ r) s =
     (if s \<in> set (allSectionOrder ord)
      then Some \<lparr>OldScores = lookupScore (SectionScores old) s,
                 NewScores = lookupScore (SectionScores new) s\<rparr>
      else SectionComparison r s)"
  by (simp add: compareInto_def Let_def compareNewAnswers_section compareOldAnswers_section
      compareSectionScores_lookup)

lemma compareInto_changes:
  "elems (AnswerChanges (compareInto ord old new allQ r)) =
     elems (AnswerChanges r) @
     List.map_filter (changeOf allQ (answersMap Map.empty (Answers old))
        (answersMap Map.empty (Answers new))) (oldAnswerOrder ord)"
  by (simp add: compareInto_def Let_def compareNewAnswers_changes compareOldAnswers_changes
      compareSectionScores_slices)

lemma compareInto_dropped:
  "elems (NoLongerAnsweredQuestions (compareInto ord old new allQ r)) =
     elems (NoLongerAnsweredQuestions r) @
     List.map_filter (droppedOf allQ (answersMap Map.empty (Answers old))
        (answersMap Map.empty (Answers new))) (oldAnswerOrder ord)"
  by (simp add: compareInto_def Let_def compareNewAnswers_dropped compareOldAnswers_dropped
      compareSectionScores_slices)

lemma compareInto_added:
  "elems (NewlyAnsweredQuestions (compareInto ord old new allQ r)) =
     elems (NewlyAnsweredQuestions r) @
     List.map_filter (addedOf allQ (answersMap Map.empty (Answers old))
        (answersMap Map.empty (Answers new))) (newAnswerOrder ord)"
  by (simp add: compareInto_def Let_def compareNewAnswers_added compareOldAnswers_newly
      compareSectionScores_slices)

lemma compareInto_nil:
  "AnswerChanges (compareInto ord old new allQ r) = None \<longleftrightarrow>
     AnswerChanges r = None \<and> elems (AnswerChanges (compareInto ord old new allQ r)) = elems (AnswerChanges r)"
  "NoLongerAnsweredQuestions (compareInto ord old new allQ r) = None \<longleftrightarrow>
     NoLongerAnsweredQuestions r = None \<and>
     elems (NoLongerAnsweredQuestions (compareInto ord old new allQ r)) = elems (NoLongerAnsweredQuestions r)"
  "NewlyAnsweredQuestions (compareInto ord old new allQ r) = None \<longleftrightarrow>
     NewlyAnsweredQuestions r = None \<and>
     elems (NewlyAnsweredQuestions (compareInto ord old new allQ r)) = elems (NewlyAnsweredQuestions r)"
    apply (simp_all only: compareInto_changes compareInto_dropped compareInto_added)
    apply (simp_all add: compareInto_def Let_def compareNewAnswers_changes compareNewAnswers_dropped
      compareOldAnswers_changes_nil compareOldAnswers_dropped_nil compareNewAnswers_added_nil
      compareOldAnswers_newly compareSectionScores_slices)
  done

lemma changeOf_Some:
  "changeOf allQ om nm q = Some d \<longleftrightarrow>
     (\<exists>ro rn. om q = Some ro \<and> nm q = Some rn \<and> ro \<noteq> rn \<and> d = detail allQ q ro rn)"
  by (auto simp: changeOf_def split: option.splits)

lemma droppedOf_Some:
  "droppedOf allQ om nm q = Some d \<longleftrightarrow>
     (\<exists>ro. om q = Some ro \<and> nm q = None \<and> d = detail allQ q ro [])"
  by (auto simp: droppedOf_def split: option.splits)

lemma addedOf_Some:
  "addedOf allQ om nm q = Some d \<longleftrightarrow>
     (\<exists>rn. nm q = Some rn \<and> om q = None \<and> d = detail allQ q [] rn)"
  by (auto simp: addedOf_def split: option.splits)

lemma QuestionID_detail: "AnswerChangeDetail.QuestionID (detail allQ q ro rn) = q"
  by (simp add: detail_def)

lemma swapAnswers_detail: "swapAnswers (detail allQ q ro rn) = detail allQ q rn ro"
  by (simp add: swapAnswers_def detail_def)

lemma elems_simps: "elems None = []" "elems (Some xs) = xs"
  by (simp_all add: elems_def)

lemma generate_changes:
  "set (elems (AnswerChanges (generateComparisonReport ord old new allQ sid))) =
     {d. \<exists>q \<in> set (oldAnswerOrder ord).
          changeOf allQ (answersMap Map.empty (Answers old)) (answersMap Map.empty (Answers new)) q = Some d}"
  by (simp add: generateComparisonReport_def compareInto_changes set_map_filter elems_simps)

lemma generate_dropped:
  "set (elems (NoLongerAnsweredQuestions (generateComparisonReport ord old new allQ sid))) =
     {d. \<exists>q \<in> set (oldAnswerOrder ord).
          droppedOf allQ (answersMap Map.empty (Answers old)) (answersMap Map.empty (Answers new)) q = Some d}"
  by (simp add: generateComparisonReport_def compareInto_dropped set_map_filter elems_simps)

lemma generate_added:
  "set (elems (NewlyAnsweredQuestions (generateComparisonReport ord old new allQ sid))) =
     {d. \<exists>q \<in> set (newAnswerOrder ord).
          addedOf allQ (answersMap Map.empty (Answers old)) (answersMap Map.empty (Answers new)) q = Some d}"
  by (simp add: generateComparisonReport_def compareInto_added set_map_filter elems_simps)

lemma changed_ids:
  "q \<in> questionIDs (AnswerChanges (generateComparisonReport ord old new allQ sid)) \<Longrightarrow>
     \<exists>ro rn. answersMap Map.empty (Answers old) q = Some ro \<and>
             answersMap Map.empty (Answers new) q = Some rn \<and> ro \<noteq> rn"
  by (auto simp: questionIDs_def generate_changes changeOf_Some QuestionID_detail)

lemma dropped_ids:
  "q \<in> questionIDs (NoLongerAnsweredQuestions (generateComparisonReport ord old new allQ sid)) \<Longrightarrow>
     answersMap Map.empty (Answers old) q \<noteq> None \<and> answersMap Map.empty (Answers new) q = None"
  by (auto simp: questionIDs_def generate_dropped droppedOf_Some QuestionID_detail)

lemma added_ids:
  "q \<in> questionIDs (NewlyAnsweredQuestions (generateComparisonReport ord old new allQ sid)) \<Longrightarrow>
     answersMap Map.empty (Answers old) q = None \<and> answersMap Map.empty (Answers new) q \<noteq> None"
  by (auto simp: questionIDs_def generate_added addedOf_Some QuestionID_detail)

lemmas fixture_defs = testSubmission_def testScore_def prrOld1_def prrNew1_def orders1_def
  prrOld4_def prrNew4_def orders4_def orders4'_def prrOld5_def prrNew5_def orders5_def mkAnswer_def

lemmas validOrders_eval = validOrders_def rangeOrder_def allSectionIDs_def

lemma valid1: "validOrders orders1 prrOld1 prrNew1"
  by (simp add: validOrders_eval fixture_defs)

lemma valid4: "validOrders orders4 prrOld4 prrNew4"
  by (auto simp add: validOrders_eval fixture_defs)

lemma valid4': "validOrders orders4' prrNew4 prrOld4"
  by (auto simp add: validOrders_eval fixture_defs)

lemma valid5: "validOrders orders5 prrOld5 prrNew5"
  by (auto simp add: validOrders_eval fixture_defs)

lemmas compare_eval = generateComparisonReport_def compareInto_def Let_def append_slice_def
  questionTextOf_def testQuestions_def testQuestion_def

lemma report4:
  "generateComparisonReport orders4 prrOld4 prrNew4 testQuestions ''service1'' =
     \<lparr>PRRComparisonReport.ServiceID = ''service1'',
      PRRSubmissionIDOld = ''prrOld4'', PRRSubmissionIDNew = ''prrNew4'',
      SectionComparison =
        [''s2'' \<mapsto> \<lparr>OldScores = testScore ''s2'' 0 0 1, NewScores = testScore ''s2'' 1 0 0\<rparr>,
         ''s1'' \<mapsto> \<lparr>OldScores = testScore ''s1'' 1 0 0, NewScores = testScore ''s1'' 1 1 0\<rparr>],
      AnswerChanges = Some [detail testQuestions ''q1'' ''Yes'' ''No''],
      NewlyAnsweredQuestions =
        Some [detail testQuestions ''q4'' [] ''Yes'', detail testQuestions ''q2'' [] ''Yes''],
      NoLongerAnsweredQuestions = Some [detail testQuestions ''q3'' ''N/A'' []]\<rparr>"
  by (simp add: compare_eval fixture_defs lookupScore_def detail_def)

lemma changeOf_swap:
  "changeOf allQ nm om q = map_option swapAnswers (changeOf allQ om nm q)"
  by (auto simp: changeOf_def swapAnswers_detail split: option.splits)

lemma changes_valid:
  assumes "validOrders ord old new"
  shows "set (elems (AnswerChanges (generateComparisonReport ord old new allQ sid))) =
     {d. \<exists>q. changeOf allQ (answersMap Map.empty (Answers old))
                  (answersMap Map.empty (Answers new)) q = Some d}"
proof -
  from assms have "set (oldAnswerOrder ord) = dom (answersMap Map.empty (Answers old))"
    by (simp add: validOrders_def rangeOrder_def)
  then show ?thesis
    by (auto simp: generate_changes changeOf_Some)
qed

lemma dropped_ids_valid:
  assumes "validOrders ord old new"
  shows "questionIDs (NoLongerAnsweredQuestions (generateComparisonReport ord old new allQ sid)) =
     dom (answersMap Map.empty (Answers old)) - dom (answersMap Map.empty (Answers new))"
proof (intro set_eqI iffI)
  fix q
  assume "q \<in> questionIDs (NoLongerAnsweredQuestions (generateComparisonReport ord old new allQ sid))"
  from dropped_ids [OF this]
  show "q \<in> dom (answersMap Map.empty (Answers old)) - dom (answersMap Map.empty (Answers new))"
    by auto
next
  fix q
  assume q: "q \<in> dom (answersMap Map.empty (Answers old)) - dom (answersMap Map.empty (Answers new))"
  then obtain ro where ro: "answersMap Map.empty (Answers old) q = Some ro"
    and no: "answersMap Map.empty (Answers new) q = None"
    by auto
  from assms q have "q \<in> set (oldAnswerOrder ord)"
    by (simp add: validOrders_def rangeOrder_def)
  with ro no have "detail allQ q ro [] \<in>
      set (elems (NoLongerAnsweredQuestions (generateComparisonReport ord old new allQ sid)))"
    by (auto simp: generate_dropped droppedOf_Some)
  then have "AnswerChangeDetail.QuestionID (detail allQ q ro []) \<in>
      questionIDs (NoLongerAnsweredQuestions (generateComparisonReport ord old new allQ sid))"
    unfolding questionIDs_def by (rule imageI)
  then show "q \<in> questionIDs (NoLongerAnsweredQuestions (generateComparisonReport ord old new allQ sid))"
    by (simp add: QuestionID_detail)
qed

lemma added_ids_valid:
  assumes "validOrders ord old new"
  shows "questionIDs (NewlyAnsweredQuestions (generateComparisonReport ord old new allQ sid)) =
     dom (answersMap Map.empty (Answers new)) - dom (answersMap Map.empty (Answers old))"
proof (intro set_eqI iffI)
  fix q
  assume "q \<in> questionIDs (NewlyAnsweredQuestions (generateComparisonReport ord old new allQ sid))"
  from added_ids [OF this]
  show "q \<in> dom (answersMap Map.empty (Answers new)) - dom (answersMap Map.empty (Answers old))"
    by auto
next
  fix q
  assume q: "q \<in> dom (answersMap Map.empty (Answers new)) - dom (answersMap Map.empty (Answers old))"
  then obtain rn where rn: "answersMap Map.empty (Answers new) q = Some rn"
    and no: "answersMap Map.empty (Answers old) q = None"
    by auto
  from assms q have "q \<in> set (newAnswerOrder ord)"
    by (simp add: validOrders_def rangeOrder_def)
  with rn no have "detail allQ q [] rn \<in>
      set (elems (NewlyAnsweredQuestions (generateComparisonReport ord old new allQ sid)))"
    by (auto simp: generate_added addedOf_Some)
  then have "AnswerChangeDetail.QuestionID (detail allQ q [] rn) \<in>
      questionIDs (NewlyAnsweredQuestions (generateComparisonReport ord old new allQ sid))"
    unfolding questionIDs_def by (rule imageI)
  then show "q \<in> questionIDs (NewlyAnsweredQuestions (generateComparisonReport ord old new allQ sid))"
    by (simp add: QuestionID_detail)
qed

lemma handler_report:
  assumes "comparePRRSubmissionsHandler ord submissions allQ sid id1 id2 = Inr report"
  shows "\<exists>sub1 sub2 old new. submissions id1 = Some sub1 \<and> submissions id2 = Some sub2 \<and>
           chronological sub1 sub2 = (old, new) \<and>
           report = compareInto ord old new allQ
             \<lparr>PRRComparisonReport.ServiceID = sid,
              PRRSubmissionIDOld = PRRSubmission.ID old,
              PRRSubmissionIDNew = PRRSubmission.ID new,
              SectionComparison = Map.empty,
              AnswerChanges = None,
              NewlyAnsweredQuestions = None,
              NoLongerAnsweredQuestions = None\<rparr>"
  using assms
  by (auto simp: comparePRRSubmissionsHandler_def Let_def split: if_splits option.splits prod.splits)

lemma compareInto_absent_side:
  assumes "validOrders ord old new" and "SectionComparison r = Map.empty"
  shows "SectionComparison (compareInto ord old new allQ r) s =
      (if s \<in> dom (SectionScores old) \<union> dom (SectionScores new)
       then Some \<lparr>OldScores = lookupScore (SectionScores old) s,
                  NewScores = lookupScore (SectionScores new) s\<rparr>
       else None)"
proof -
  from assms(1) have "set (allSectionOrder ord) = dom (SectionScores old) \<union> dom (SectionScores new)"
    by (simp add: validOrders_def rangeOrder_def dom_allSectionIDs)
  with assms(2) show ?thesis
    by (simp add: compareInto_section)
qed

lemmas handler_eval = comparePRRSubmissionsHandler_def chronological_def testStore_def
  compareInto_def Let_def append_slice_def questionTextOf_def testQuestions_def testQuestion_def

lemma handler1:
  "comparePRRSubmissionsHandler orders1 testStore testQuestions ''service1'' ''prrOld1'' ''prrNew1'' =
     Inr \<lparr>PRRComparisonReport.ServiceID = ''service1'',
          PRRSubmissionIDOld = ''prrOld1'', PRRSubmissionIDNew = ''prrNew1'',
          SectionComparison =
            [''s1'' \<mapsto> \<lparr>OldScores = testScore ''s1'' 1 0 0, NewScores = testScore ''s1'' 1 0 0\<rparr>],
          AnswerChanges = None, NewlyAnsweredQuestions = None,
          NoLongerAnsweredQuestions = None\<rparr>"
  by (simp add: handler_eval fixture_defs lookupScore_def)

lemma report1:
  "generateComparisonReport orders1 prrOld1 prrNew1 testQuestions ''service1'' =
     \<lparr>PRRComparisonReport.ServiceID = ''service1'',
      PRRSubmissionIDOld = ''prrOld1'', PRRSubmissionIDNew = ''prrNew1'',
      SectionComparison =
        [''s1'' \<mapsto> \<lparr>OldScores = testScore ''s1'' 1 0 0, NewScores = testScore ''s1'' 1 0 0\<rparr>],
      AnswerChanges = Some [], NewlyAnsweredQuestions = Some [],
      NoLongerAnsweredQuestions = Some []\<rparr>"
  by (simp add: compare_eval fixture_defs lookupScore_def)

section \<open>Claims about the comparison\<close>

text \<open>
  Claim C2.  The three collections of a report of \<open>generateComparisonReport\<close> are never
  nil.  The report that \<open>comparePRRSubmissionsHandler\<close> builds for GET /prr/compare is a
  different matter: there, a collection without entries is always the nil slice, which the
  JSON encoder writes as \<open>null\<close>.
\<close>

theorem handler_empty_collections_nil:
  "AnswerChanges (generateComparisonReport ord oldPRR newPRR allQuestions serviceID) \<noteq> None \<and>
   NewlyAnsweredQuestions (generateComparisonReport ord oldPRR newPRR allQuestions serviceID) \<noteq> None \<and>
   NoLongerAnsweredQuestions (generateComparisonReport ord oldPRR newPRR allQuestions serviceID) \<noteq> None \<and>
   (comparePRRSubmissionsHandler ord submissions allQuestions serviceID prrID1 prrID2 = Inr report \<longrightarrow>
      (elems (AnswerChanges report) = [] \<longrightarrow> AnswerChanges report = None) \<and>
      (elems (NewlyAnsweredQuestions report) = [] \<longrightarrow> NewlyAnsweredQuestions report = None) \<and>
      (elems (NoLongerAnsweredQuestions report) = [] \<longrightarrow> NoLongerAnsweredQuestions report = None))"
proof (intro conjI impI)
  show "AnswerChanges (generateComparisonReport ord oldPRR newPRR allQuestions serviceID) \<noteq> None"
    by (simp add: generateComparisonReport_def compareInto_nil)
  show "NewlyAnsweredQuestions (generateComparisonReport ord oldPRR newPRR allQuestions serviceID) \<noteq> None"
    by (simp add: generateComparisonReport_def compareInto_nil)
  show "NoLongerAnsweredQuestions (generateComparisonReport ord oldPRR newPRR allQuestions serviceID) \<noteq> None"
    by (simp add: generateComparisonReport_def compareInto_nil)
next
  assume "comparePRRSubmissionsHandler ord submissions allQuestions serviceID prrID1 prrID2 = Inr report"
    and "elems (AnswerChanges report) = []"
  then show "AnswerChanges report = None"
    by (auto dest!: handler_report simp: compareInto_nil elems_simps)
next
  assume "comparePRRSubmissionsHandler ord submissions allQuestions serviceID prrID1 prrID2 = Inr report"
    and "elems (NewlyAnsweredQuestions report) = []"
  then show "NewlyAnsweredQuestions report = None"
    by (auto dest!: handler_report simp: compareInto_nil elems_simps)
next
  assume "comparePRRSubmissionsHandler ord submissions allQuestions serviceID prrID1 prrID2 = Inr report"
    and "elems (NoLongerAnsweredQuestions report) = []"
  then show "NoLongerAnsweredQuestions report = None"
    by (auto dest!: handler_report simp: compareInto_nil elems_simps)
qed

theorem handler_empty_collections_nil_witness:
  "(\<exists>report.
      comparePRRSubmissionsHandler orders1 testStore testQuestions ''service1'' ''prrOld1'' ''prrNew1''
        = Inr report \<and>
      AnswerChanges report = None \<and> NewlyAnsweredQuestions report = None \<and>
      NoLongerAnsweredQuestions report = None) \<and>
   AnswerChanges (generateComparisonReport orders1 prrOld1 prrNew1 testQuestions ''service1'') = Some [] \<and>
   NewlyAnsweredQuestions (generateComparisonReport orders1 prrOld1 prrNew1 testQuestions ''service1'') = Some [] \<and>
   NoLongerAnsweredQuestions (generateComparisonReport orders1 prrOld1 prrNew1 testQuestions ''service1'') = Some []"
proof -
  obtain report where h: "comparePRRSubmissionsHandler orders1 testStore testQuestions
      ''service1'' ''prrOld1'' ''prrNew1'' = Inr report"
    and e: "elems (AnswerChanges report) = []" "elems (NewlyAnsweredQuestions report) = []"
      "elems (NoLongerAnsweredQuestions report) = []"
    by (simp add: handler1 elems_simps)
  from handler_empty_collections_nil [of orders1 prrOld1 prrNew1 testQuestions "''service1''"
      testStore "''prrOld1''" "''prrNew1''" report] h e
  have "AnswerChanges report = None \<and> NewlyAnsweredQuestions report = None \<and>
      NoLongerAnsweredQuestions report = None"
    by blast
  with h show ?thesis
    by (auto simp: report1)
qed

text \<open>
  Claim C3.  No question id occurs in two of the three collections of a comparison report,
  and a question id occurs among the answer changes only if both submissions answer it,
  with responses that differ as strings.
\<close>

theorem change_collections_disjoint:
  "questionIDs (AnswerChanges (generateComparisonReport ord oldPRR newPRR allQuestions serviceID)) \<inter>
     questionIDs (NewlyAnsweredQuestions (generateComparisonReport ord oldPRR newPRR allQuestions serviceID)) = {} \<and>
   questionIDs (AnswerChanges (generateComparisonReport ord oldPRR newPRR allQuestions serviceID)) \<inter>
     questionIDs (NoLongerAnsweredQuestions (generateComparisonReport ord oldPRR newPRR allQuestions serviceID)) = {} \<and>
   questionIDs (NewlyAnsweredQuestions (generateComparisonReport ord oldPRR newPRR allQuestions serviceID)) \<inter>
     questionIDs (NoLongerAnsweredQuestions (generateComparisonReport ord oldPRR newPRR allQuestions serviceID)) = {} \<and>
   (\<forall>q \<in> questionIDs (AnswerChanges (generateComparisonReport ord oldPRR newPRR allQuestions serviceID)).
      \<exists>oldResp newResp. mkAnswer q oldResp \<in> set (Answers oldPRR) \<and>
         mkAnswer q newResp \<in> set (Answers newPRR) \<and> oldResp \<noteq> newResp)"
proof (intro conjI ballI)
  let ?r = "generateComparisonReport ord oldPRR newPRR allQuestions serviceID"
  show "questionIDs (AnswerChanges ?r) \<inter> questionIDs (NewlyAnsweredQuestions ?r) = {}"
    using changed_ids [of _ ord oldPRR newPRR allQuestions serviceID]
      added_ids [of _ ord oldPRR newPRR allQuestions serviceID] by fastforce
  show "questionIDs (AnswerChanges ?r) \<inter> questionIDs (NoLongerAnsweredQuestions ?r) = {}"
    using changed_ids [of _ ord oldPRR newPRR allQuestions serviceID]
      dropped_ids [of _ ord oldPRR newPRR allQuestions serviceID] by fastforce
  show "questionIDs (NewlyAnsweredQuestions ?r) \<inter> questionIDs (NoLongerAnsweredQuestions ?r) = {}"
    using added_ids [of _ ord oldPRR newPRR allQuestions serviceID]
      dropped_ids [of _ ord oldPRR newPRR allQuestions serviceID] by fastforce
next
  fix q
  assume "q \<in> questionIDs (AnswerChanges (generateComparisonReport ord oldPRR newPRR allQuestions serviceID))"
  then obtain ro rn where "answersMap Map.empty (Answers oldPRR) q = Some ro"
    "answersMap Map.empty (Answers newPRR) q = Some rn" "ro \<noteq> rn"
    using changed_ids by blast
  then show "\<exists>oldResp newResp. mkAnswer q oldResp \<in> set (Answers oldPRR) \<and>
         mkAnswer q newResp \<in> set (Answers newPRR) \<and> oldResp \<noteq> newResp"
    using answersMap_answered by blast
qed

theorem change_collections_disjoint_witness:
  "''q1'' \<in> questionIDs (AnswerChanges
      (generateComparisonReport orders4 prrOld4 prrNew4 testQuestions ''service1'')) \<and>
   ''q1'' \<notin> questionIDs (NewlyAnsweredQuestions
      (generateComparisonReport orders4 prrOld4 prrNew4 testQuestions ''service1'')) \<and>
   ''q1'' \<notin> questionIDs (NoLongerAnsweredQuestions
      (generateComparisonReport orders4 prrOld4 prrNew4 testQuestions ''service1'')) \<and>
   (\<exists>oldResp newResp. mkAnswer ''q1'' oldResp \<in> set (Answers prrOld4) \<and>
      mkAnswer ''q1'' newResp \<in> set (Answers prrNew4) \<and> oldResp \<noteq> newResp)"
proof -
  have m: "''q1'' \<in> questionIDs (AnswerChanges
      (generateComparisonReport orders4 prrOld4 prrNew4 testQuestions ''service1''))"
    by (simp add: report4 questionIDs_def elems_simps detail_def)
  with change_collections_disjoint [of orders4 prrOld4 prrNew4 testQuestions "''service1''"]
  show ?thesis by blast
qed

text \<open>
  Claim C4.  The keys of the report's section map are exactly the section ids of the old
  submission's score map together with those of the new one, and the entry of each such
  id pairs the old submission's score with the new submission's score, each replaced by
  the zero value where the submission has no score for the id.
\<close>

theorem section_comparison_union:
  assumes "validOrders ord oldPRR newPRR"
  shows "dom (SectionComparison (generateComparisonReport ord oldPRR newPRR allQuestions serviceID))
           = dom (SectionScores oldPRR) \<union> dom (SectionScores newPRR) \<and>
         (\<forall>s \<in> dom (SectionScores oldPRR) \<union> dom (SectionScores newPRR).
            SectionComparison (generateComparisonReport ord oldPRR newPRR allQuestions serviceID) s =
              Some \<lparr>OldScores = (case SectionScores oldPRR s of
                                    None \<Rightarrow> zeroSectionScore | Some sc \<Rightarrow> sc),
                    NewScores = (case SectionScores newPRR s of
                                    None \<Rightarrow> zeroSectionScore | Some sc \<Rightarrow> sc)\<rparr>)"
proof -
  from assms have "set (allSectionOrder ord) = dom (SectionScores oldPRR) \<union> dom (SectionScores newPRR)"
    by (simp add: validOrders_def rangeOrder_def dom_allSectionIDs)
  then have "SectionComparison (generateComparisonReport ord oldPRR newPRR allQuestions serviceID) s =
      (if s \<in> dom (SectionScores oldPRR) \<union> dom (SectionScores newPRR)
       then Some \<lparr>OldScores = lookupScore (SectionScores oldPRR) s,
                  NewScores = lookupScore (SectionScores newPRR) s\<rparr>
       else None)" for s
    by (simp add: generateComparisonReport_def compareInto_section)
  then show ?thesis
    by (auto simp: lookupScore_def dom_def split: if_splits)
qed

theorem section_comparison_union_witness:
  "validOrders orders5 prrOld5 prrNew5 \<and>
   dom (SectionComparison (generateComparisonReport orders5 prrOld5 prrNew5 testQuestions ''service1''))
     = {''s1'', ''s2''} \<and>
   SectionComparison (generateComparisonReport orders5 prrOld5 prrNew5 testQuestions ''service1'') ''s1''
     = Some \<lparr>OldScores = testScore ''s1'' 1 0 0, NewScores = zeroSectionScore\<rparr> \<and>
   SectionComparison (generateComparisonReport orders5 prrOld5 prrNew5 testQuestions ''service1'') ''s2''
     = Some \<lparr>OldScores = zeroSectionScore, NewScores = testScore ''s2'' 0 1 0\<rparr>"
proof -
  have d: "dom (SectionScores prrOld5) \<union> dom (SectionScores prrNew5) = {''s1'', ''s2''}"
    by (auto simp: fixture_defs)
  have l: "SectionScores prrOld5 ''s1'' = Some (testScore ''s1'' 1 0 0)"
    "SectionScores prrNew5 ''s1'' = None"
    "SectionScores prrOld5 ''s2'' = None"
    "SectionScores prrNew5 ''s2'' = Some (testScore ''s2'' 0 1 0)"
    by (simp_all add: fixture_defs)
  from section_comparison_union [OF valid5, of testQuestions "''service1''"] valid5
  show ?thesis
    by (simp add: d l)
qed

text \<open>
  Claim C8.  Comparing \<open>A\<close> with \<open>B\<close> and \<open>B\<close> with \<open>A\<close> gives the same set of answer
  changes up to exchanging old and new answer in every entry, and the newly answered
  question ids of either comparison are the no longer answered ones of the other.
\<close>

theorem comparison_swap_symmetry:
  assumes "validOrders ordAB A B" and "validOrders ordBA B A"
  shows "set (elems (AnswerChanges (generateComparisonReport ordAB A B allQuestions serviceID))) =
           swapAnswers ` set (elems (AnswerChanges
             (generateComparisonReport ordBA B A allQuestions serviceID))) \<and>
         questionIDs (NewlyAnsweredQuestions (generateComparisonReport ordAB A B allQuestions serviceID)) =
           questionIDs (NoLongerAnsweredQuestions
             (generateComparisonReport ordBA B A allQuestions serviceID)) \<and>
         questionIDs (NoLongerAnsweredQuestions (generateComparisonReport ordAB A B allQuestions serviceID)) =
           questionIDs (NewlyAnsweredQuestions
             (generateComparisonReport ordBA B A allQuestions serviceID))"
proof (intro conjI)
  let ?a = "answersMap Map.empty (Answers A)" and ?b = "answersMap Map.empty (Answers B)"
  have "{d. \<exists>q. changeOf allQuestions ?a ?b q = Some d} =
        swapAnswers ` {d. \<exists>q. changeOf allQuestions ?b ?a q = Some d}"
  proof (intro set_eqI iffI)
    fix d assume "d \<in> {d. \<exists>q. changeOf allQuestions ?a ?b q = Some d}"
    then obtain q where "changeOf allQuestions ?a ?b q = Some d" by blast
    then obtain e where "changeOf allQuestions ?b ?a q = Some e" "d = swapAnswers e"
      by (subst (asm) changeOf_swap) auto
    then show "d \<in> swapAnswers ` {d. \<exists>q. changeOf allQuestions ?b ?a q = Some d}" by blast
  next
    fix d assume "d \<in> swapAnswers ` {d. \<exists>q. changeOf allQuestions ?b ?a q = Some d}"
    then obtain e q where "changeOf allQuestions ?b ?a q = Some e" "d = swapAnswers e" by blast
    then have "changeOf allQuestions ?a ?b q = Some d"
      by (subst changeOf_swap) simp
    then show "d \<in> {d. \<exists>q. changeOf allQuestions ?a ?b q = Some d}" by blast
  qed
  then show "set (elems (AnswerChanges (generateComparisonReport ordAB A B allQuestions serviceID))) =
           swapAnswers ` set (elems (AnswerChanges
             (generateComparisonReport ordBA B A allQuestions serviceID)))"
    by (simp only: changes_valid [OF assms(1)] changes_valid [OF assms(2)])
  show "questionIDs (NewlyAnsweredQuestions (generateComparisonReport ordAB A B allQuestions serviceID)) =
           questionIDs (NoLongerAnsweredQuestions
             (generateComparisonReport ordBA B A allQuestions serviceID))"
    by (simp only: added_ids_valid [OF assms(1)] dropped_ids_valid [OF assms(2)])
  show "questionIDs (NoLongerAnsweredQuestions (generateComparisonReport ordAB A B allQuestions serviceID)) =
           questionIDs (NewlyAnsweredQuestions
             (generateComparisonReport ordBA B A allQuestions serviceID))"
    by (simp only: dropped_ids_valid [OF assms(1)] added_ids_valid [OF assms(2)])
qed

theorem comparison_swap_symmetry_witness:
  "validOrders orders4 prrOld4 prrNew4 \<and> validOrders orders4' prrNew4 prrOld4 \<and>
   set (elems (AnswerChanges (generateComparisonReport orders4 prrOld4 prrNew4 testQuestions ''service1'')))
     = {detail testQuestions ''q1'' ''Yes'' ''No''} \<and>
   swapAnswers ` set (elems (AnswerChanges
       (generateComparisonReport orders4' prrNew4 prrOld4 testQuestions ''service1'')))
     = {detail testQuestions ''q1'' ''Yes'' ''No''} \<and>
   questionIDs (NoLongerAnsweredQuestions
       (generateComparisonReport orders4' prrNew4 prrOld4 testQuestions ''service1''))
     = {''q2'', ''q4''} \<and>
   questionIDs (NewlyAnsweredQuestions
       (generateComparisonReport orders4' prrNew4 prrOld4 testQuestions ''service1''))
     = {''q3''}"
proof -
  have a: "set (elems (AnswerChanges
      (generateComparisonReport orders4 prrOld4 prrNew4 testQuestions ''service1'')))
     = {detail testQuestions ''q1'' ''Yes'' ''No''}"
    and n: "questionIDs (NewlyAnsweredQuestions
      (generateComparisonReport orders4 prrOld4 prrNew4 testQuestions ''service1'')) = {''q2'', ''q4''}"
    and d: "questionIDs (NoLongerAnsweredQuestions
      (generateComparisonReport orders4 prrOld4 prrNew4 testQuestions ''service1'')) = {''q3''}"
    by (auto simp: report4 questionIDs_def elems_simps QuestionID_detail)
  from comparison_swap_symmetry [OF valid4 valid4', of testQuestions "''service1''"] a n d
    valid4 valid4'
  show ?thesis by simp
qed

text \<open>
  Claim C10.  For a section id that only one of the two submissions has a score for, the
  entry of the report carries on the other side the zero value of \<open>SectionScore\<close>: its
  \<open>SectionID\<close> is the empty string and its three counts are zero.  This holds for the
  report of \<open>generateComparisonReport\<close> and for the one the handler of GET /prr/compare
  builds.
\<close>

theorem absent_side_is_zero_value:
  assumes "validOrders ord oldPRR newPRR"
    and "report = generateComparisonReport ord oldPRR newPRR allQuestions serviceID \<or>
         (\<exists>submissions prrID1 prrID2 sub1 sub2.
            comparePRRSubmissionsHandler ord submissions allQuestions serviceID prrID1 prrID2
              = Inr report \<and>
            submissions prrID1 = Some sub1 \<and> submissions prrID2 = Some sub2 \<and>
            chronological sub1 sub2 = (oldPRR, newPRR))"
  shows "(SectionScores oldPRR s = Some sc \<and> SectionScores newPRR s = None \<longrightarrow>
            SectionComparison report s =
              Some \<lparr>OldScores = sc,
                    NewScores = \<lparr>SectionScore.SectionID = [], YesCount = 0, NoCount = 0,
                                 NaCount = 0\<rparr>\<rparr>) \<and>
         (SectionScores oldPRR s = None \<and> SectionScores newPRR s = Some sc \<longrightarrow>
            SectionComparison report s =
              Some \<lparr>OldScores = \<lparr>SectionScore.SectionID = [], YesCount = 0, NoCount = 0,
                                 NaCount = 0\<rparr>,
                    NewScores = sc\<rparr>)"
proof -
  have core: "?thesis" if r: "report = compareInto ord oldPRR newPRR allQuestions r0"
    and r0: "SectionComparison r0 = Map.empty" for r0
    by (simp add: r compareInto_absent_side [OF assms(1) r0] lookupScore_def
        zeroSectionScore_def domIff)
  from assms(2) show ?thesis
  proof
    assume "report = generateComparisonReport ord oldPRR newPRR allQuestions serviceID"
    then show ?thesis
      unfolding generateComparisonReport_def by (rule core) simp
  next
    assume "\<exists>submissions prrID1 prrID2 sub1 sub2.
            comparePRRSubmissionsHandler ord submissions allQuestions serviceID prrID1 prrID2
              = Inr report \<and>
            submissions prrID1 = Some sub1 \<and> submissions prrID2 = Some sub2 \<and>
            chronological sub1 sub2 = (oldPRR, newPRR)"
    then obtain submissions prrID1 prrID2 sub1 sub2 where
      c: "comparePRRSubmissionsHandler ord submissions allQuestions serviceID prrID1 prrID2 = Inr report"
      and s: "submissions prrID1 = Some sub1" "submissions prrID2 = Some sub2"
      "chronological sub1 sub2 = (oldPRR, newPRR)"
      by blast
    from handler_report [OF c] s have "report = compareInto ord oldPRR newPRR allQuestions
             \<lparr>PRRComparisonReport.ServiceID = serviceID,
              PRRSubmissionIDOld = PRRSubmission.ID oldPRR,
              PRRSubmissionIDNew = PRRSubmission.ID newPRR,
              SectionComparison = Map.empty,
              AnswerChanges = None,
              NewlyAnsweredQuestions = None,
              NoLongerAnsweredQuestions = None\<rparr>"
      by auto
    then show ?thesis
      by (rule core) simp
  qed
qed

theorem absent_side_is_zero_value_witness:
  "validOrders orders5 prrOld5 prrNew5 \<and>
   SectionComparison (generateComparisonReport orders5 prrOld5 prrNew5 testQuestions ''service1'') ''s1''
     = Some \<lparr>OldScores = testScore ''s1'' 1 0 0,
             NewScores = \<lparr>SectionScore.SectionID = [], YesCount = 0, NoCount = 0, NaCount = 0\<rparr>\<rparr> \<and>
   (\<exists>report.
      comparePRRSubmissionsHandler orders5 testStore testQuestions ''service1'' ''prrNew5'' ''prrOld5''
        = Inr report \<and>
      SectionComparison report ''s2''
        = Some \<lparr>OldScores = \<lparr>SectionScore.SectionID = [], YesCount = 0, NoCount = 0, NaCount = 0\<rparr>,
                NewScores = testScore ''s2'' 0 1 0\<rparr>)"
proof -
  have l: "SectionScores prrOld5 ''s1'' = Some (testScore ''s1'' 1 0 0)"
    "SectionScores prrNew5 ''s1'' = None"
    "SectionScores prrOld5 ''s2'' = None"
    "SectionScores prrNew5 ''s2'' = Some (testScore ''s2'' 0 1 0)"
    by (simp_all add: fixture_defs)
  have g: "SectionComparison
      (generateComparisonReport orders5 prrOld5 prrNew5 testQuestions ''service1'') ''s1''
     = Some \<lparr>OldScores = testScore ''s1'' 1 0 0,
             NewScores = \<lparr>SectionScore.SectionID = [], YesCount = 0, NoCount = 0, NaCount = 0\<rparr>\<rparr>"
    using absent_side_is_zero_value [OF valid5, of
        "generateComparisonReport orders5 prrOld5 prrNew5 testQuestions ''service1''"
        testQuestions "''service1''" "''s1''" "testScore ''s1'' 1 0 0"] l
    by simp
  obtain report where h: "comparePRRSubmissionsHandler orders5 testStore testQuestions
      ''service1'' ''prrNew5'' ''prrOld5'' = Inr report"
    by (simp add: handler_eval fixture_defs)
  have s: "testStore ''prrNew5'' = Some prrNew5" "testStore ''prrOld5'' = Some prrOld5"
    "chronological prrNew5 prrOld5 = (prrOld5, prrNew5)"
    by (simp_all add: testStore_def chronological_def fixture_defs)
  have "SectionComparison report ''s2''
        = Some \<lparr>OldScores = \<lparr>SectionScore.SectionID = [], YesCount = 0, NoCount = 0, NaCount = 0\<rparr>,
                NewScores = testScore ''s2'' 0 1 0\<rparr>"
    using absent_side_is_zero_value [OF valid5, of report testQuestions "''service1''"
        "''s2''" "testScore ''s2'' 0 1 0"] h s l
    by blast
  with g h valid5 show ?thesis by blast
qed

end
